theory Spec2Isabelle
  imports Main
begin

section \<open>Python values used by the Bell-circuit builder\<close>

text \<open>
  The exceptions the source can raise. \<open>ValueError\<close> and \<open>Exception\<close> carry the
  message the source formats; \<open>IndexError\<close> is what Python raises when a list or a
  register is indexed out of range; \<open>CircuitError\<close> is what the circuit library raises
  when an instruction is appended on a number of qubits other than the one it was declared
  with. A raise is the value \<open>Inl e\<close>; the object it was raised from is then no longer
  returned.
\<close>

datatype error = ValueError string | Exception string | IndexError | CircuitError

definition bind :: "error + 'a \<Rightarrow> ('a \<Rightarrow> error + 'b) \<Rightarrow> error + 'b" where
  "bind m f = (case m of Inl e \<Rightarrow> Inl e | Inr a \<Rightarrow> f a)"

text \<open>Decimal rendering of an integer, as an f-string does it (\<open>str(int)\<close>).\<close>

definition digit_char :: "nat \<Rightarrow> char" where
  "digit_char d = ''0123456789'' ! d"

function str_nat :: "nat \<Rightarrow> string" where
  "str_nat n = (if n < 10 then [digit_char n] else str_nat (n div 10) @ [digit_char (n mod 10)])"
  by pat_completeness auto
termination
  by (relation "measure (\<lambda>n. n)") auto

declare str_nat.simps [simp del]

definition str_int :: "int \<Rightarrow> string" where
  "str_int i = (if i < 0 then CHR ''-'' # str_nat (nat (- i)) else str_nat (nat i))"

text \<open>
  Indexing with a Python integer: a negative index counts from the end, and an index
  outside the sequence raises \<open>IndexError\<close>.
\<close>

definition list_getitem :: "'a list \<Rightarrow> int \<Rightarrow> error + 'a" where
  "list_getitem xs k =
     (let n = int (length xs); j = (if k < 0 then n + k else k)
      in if 0 \<le> j \<and> j < n then Inr (xs ! nat j) else Inl IndexError)"

section \<open>Registers, gates and circuits\<close>

text \<open>
  A \<open>QuantumRegister(size, name)\<close>; a qubit is named by its register and its position
  there. The two classical bits are positions of the one classical register.
\<close>

datatype register = QuantumRegister (size_reg: nat) (name_reg: string)

datatype qubit = Qubit string nat

datatype clbit = Clbit nat

definition bits :: "register \<Rightarrow> qubit list" where
  "bits r = map (Qubit (name_reg r)) [0..<size_reg r]"

text \<open>\<open>register[k]\<close>, \<open>register[lo:hi]\<close> and \<open>register[lo:]\<close>.\<close>

definition getitem :: "register \<Rightarrow> int \<Rightarrow> error + qubit" where
  "getitem r k = list_getitem (bits r) k"

definition slice :: "register \<Rightarrow> nat \<Rightarrow> nat \<Rightarrow> qubit list" where
  "slice r lo hi = drop lo (take hi (bits r))"

definition slice_from :: "register \<Rightarrow> nat \<Rightarrow> qubit list" where
  "slice_from r lo = drop lo (bits r)"

text \<open>
  The operations a circuit holds, in order. A gate called with a list of qubits is one
  operation per qubit; \<open>Instruction\<close> is the opaque placeholder of the diagram mode
  (name, qubit count, classical-bit count, and the qubits it is appended on).
\<close>

datatype gate_op =
    H qubit
  | X qubit
  | Z qubit
  | CX qubit qubit
  | CCX qubit qubit qubit
  | Barrier
  | Measure qubit clbit
  | Instruction string nat nat "qubit list"

record quantum_circuit =
  qregs :: "register list"
  cregs :: "nat list"
  data :: "gate_op list"

definition QuantumCircuit :: "register list \<Rightarrow> nat \<Rightarrow> quantum_circuit" where
  "QuantumCircuit qrs c = \<lparr>qregs = qrs, cregs = [c], data = []\<rparr>"

text \<open>Appending operations to a circuit (\<open>circuit.h(q)\<close>, \<open>circuit.cx(a, b)\<close>, ...).\<close>

definition emit :: "quantum_circuit \<Rightarrow> gate_op list \<Rightarrow> quantum_circuit" where
  "emit qc gs = qc\<lparr>data := data qc @ gs\<rparr>"

section \<open>The builder: \<open>BellCircuit\<close>\<close>

record bell_circuit =
  qubits :: register
  anc_qubit :: "register list"
  cbits :: nat
  circuit :: quantum_circuit

text \<open>
  \<open>BellCircuit.__init__\<close>. The ancilla counts are naturals: a register has no negative
  size. With either count zero no ancilla register is made at all.
\<close>

definition BellCircuit :: "nat \<Rightarrow> nat \<Rightarrow> bell_circuit" where
  "BellCircuit n_anc_qubit1 n_anc_qubit2 =
     (let qs = QuantumRegister 2 ''qubit'';
          ancs = (if n_anc_qubit1 = 0 \<or> n_anc_qubit2 = 0 then []
                  else [QuantumRegister n_anc_qubit1 ''anc_qb1'',
                        QuantumRegister n_anc_qubit2 ''anc_qb2''])
      in \<lparr>qubits = qs, anc_qubit = ancs, cbits = 2,
          circuit = QuantumCircuit (qs # ancs) 2\<rparr>)"

text \<open>In-place application of gates to \<open>self.circuit\<close>.\<close>

definition app :: "bell_circuit \<Rightarrow> gate_op list \<Rightarrow> bell_circuit" where
  "app self gs = self\<lparr>circuit := emit (circuit self) gs\<rparr>"

subsection \<open>Messages\<close>

definition msg_only_2_qubits :: "int \<Rightarrow> string" where
  "msg_only_2_qubits qb =
     ''There are only 2 qubits, so '' @ str_int qb @ '' is not a valid choice.''
     @ ''Please insert 1 or 2!''"

definition msg_currently :: "int \<Rightarrow> nat \<Rightarrow> string" where
  "msg_currently qb n =
     ''Currently qubit '' @ str_int qb @ '' has '' @ str_nat n @ '' ancillas.''"

definition msg_not_valid_error_qubit :: "int \<Rightarrow> string" where
  "msg_not_valid_error_qubit g =
     str_int g @ '' is not a valid choice as qubit value for error error.''
     @ ''Please insert 1 or 2!''"

definition msg_out_of_index :: "int \<Rightarrow> nat \<Rightarrow> int \<Rightarrow> string" where
  "msg_out_of_index g n i =
     ''In the error correction method  for qubit '' @ str_int g @ '' there are ''
     @ str_nat n @ '' ancillas, '' @ ''so '' @ str_int i @ '' is out of index ''
     @ ''for applying the error.''"

definition msg_both :: "nat \<Rightarrow> nat \<Rightarrow> string" where
  "msg_both n1 n2 =
     ''Currently qubit1 has '' @ str_nat n1 @ '' ancillas ''
     @ ''and qubit2 has '' @ str_nat n2 @ '' ancillas.''"

subsection \<open>Correction gadgets\<close>

text \<open>
  Each gadget works on a copy of \<open>self.circuit\<close>, assigns the copy to \<open>self.circuit\<close>
  when \<open>in_place\<close> is set, and returns the copy: the result is the builder after the
  call and the returned circuit.
\<close>

definition add_zero_bf_corr ::
  "bell_circuit \<Rightarrow> int \<Rightarrow> bool \<Rightarrow> error + (bell_circuit \<times> quantum_circuit)" where
  "add_zero_bf_corr self qb in_place =
     (if qb \<notin> {1, 2} then Inl (ValueError (msg_only_2_qubits qb))
      else bind (list_getitem (anc_qubit self) (qb - 1)) (\<lambda>anc.
        if size_reg anc < 1
        then Inl (Exception (''This method requires one ancilla per each qubit. ''
                              @ msg_currently qb (size_reg anc)))
        else bind (getitem (qubits self) (qb - 1)) (\<lambda>q.
             bind (getitem anc 0) (\<lambda>a.
               let c = emit (circuit self) [CX q a, CX a q]
               in Inr (if in_place then self\<lparr>circuit := c\<rparr> else self, c)))))"

definition add_x_pf_corr ::
  "bell_circuit \<Rightarrow> int \<Rightarrow> bool \<Rightarrow> error + (bell_circuit \<times> quantum_circuit)" where
  "add_x_pf_corr self qb in_place =
     (if qb \<notin> {1, 2} then Inl (ValueError (msg_only_2_qubits qb))
      else bind (list_getitem (anc_qubit self) (qb - 1)) (\<lambda>anc.
        if size_reg anc < 1
        then Inl (Exception (''This method requires one ancilla per each qubit. ''
                              @ msg_currently qb (size_reg anc)))
        else bind (getitem (qubits self) (qb - 1)) (\<lambda>q.
             bind (getitem anc 0) (\<lambda>a.
               let c = emit (circuit self) [H q, CX q a, CX a q, H q]
               in Inr (if in_place then self\<lparr>circuit := c\<rparr> else self, c)))))"

definition add_zero_bf_corr_with_repetition ::
  "bell_circuit \<Rightarrow> int \<Rightarrow> bool \<Rightarrow> error + (bell_circuit \<times> quantum_circuit)" where
  "add_zero_bf_corr_with_repetition self qb in_place =
     (if qb \<notin> {1, 2} then Inl (ValueError (msg_only_2_qubits qb))
      else bind (list_getitem (anc_qubit self) (qb - 1)) (\<lambda>anc.
        if size_reg anc < 2
        then Inl (Exception (''This method requires two ancilla per each qubit. ''
                              @ msg_currently qb (size_reg anc)))
        else bind (getitem (qubits self) (qb - 1)) (\<lambda>q.
             bind (getitem anc 0) (\<lambda>a0.
             bind (getitem anc 1) (\<lambda>a1.
               let c = emit (circuit self) [CX q a0, CX q a1, CCX a0 a1 q]
               in Inr (if in_place then self\<lparr>circuit := c\<rparr> else self, c))))))"

definition add_x_pf_corr_with_repetition ::
  "bell_circuit \<Rightarrow> int \<Rightarrow> bool \<Rightarrow> error + (bell_circuit \<times> quantum_circuit)" where
  "add_x_pf_corr_with_repetition self qb in_place =
     (if qb \<notin> {1, 2} then Inl (ValueError (msg_only_2_qubits qb))
      else bind (list_getitem (anc_qubit self) (qb - 1)) (\<lambda>anc.
        if size_reg anc < 2
        then Inl (Exception (''This method requires two ancillas per each qubit. ''
                              @ msg_currently qb (size_reg anc)))
        else bind (getitem (qubits self) (qb - 1)) (\<lambda>q.
             bind (getitem anc 0) (\<lambda>a0.
             bind (getitem anc 1) (\<lambda>a1.
               let c = emit (circuit self) [H q, CX q a0, CX q a1, CCX a0 a1 q, H q]
               in Inr (if in_place then self\<lparr>circuit := c\<rparr> else self, c))))))"

subsection \<open>Error injection\<close>

text \<open>\<open>add_error_gate\<close>: only \<open>'z'\<close> and \<open>'x'\<close> apply a gate; there is no \<open>else\<close>.\<close>

definition add_error_gate :: "bell_circuit \<Rightarrow> qubit \<Rightarrow> string \<Rightarrow> bell_circuit" where
  "add_error_gate self q gate =
     (if gate = ''z'' then app self [Z q]
      else if gate = ''x'' then app self [X q]
      else self)"

text \<open>
  \<open>add_error\<close> takes the pair (group, index) and the gate. It has no \<open>in_place\<close>
  parameter and returns nothing: it always works on \<open>self.circuit\<close>. The condition of
  its \<open>elif\<close> reads \<open>self.anc_qubit[group - 1].size\<close> only when the list is not empty.
\<close>

definition out_of_index :: "bell_circuit \<Rightarrow> int \<times> int \<Rightarrow> error + bool" where
  "out_of_index self qb =
     (if length (anc_qubit self) > 0
      then bind (list_getitem (anc_qubit self) (fst qb - 1))
             (\<lambda>r. Inr (snd qb > int (size_reg r)))
      else Inr (snd qb \<noteq> 0))"

definition n_ancillas_of :: "bell_circuit \<Rightarrow> int \<Rightarrow> error + nat" where
  "n_ancillas_of self g =
     (if length (anc_qubit self) > 0
      then bind (list_getitem (anc_qubit self) (g - 1)) (\<lambda>r. Inr (size_reg r))
      else Inr 0)"

definition add_error :: "bell_circuit \<Rightarrow> int \<times> int \<Rightarrow> string \<Rightarrow> error + bell_circuit" where
  "add_error self qb error_gate =
     (if fst qb \<notin> {1, 2} then Inl (ValueError (msg_not_valid_error_qubit (fst qb)))
      else bind (out_of_index self qb) (\<lambda>out.
        if out
        then bind (n_ancillas_of self (fst qb)) (\<lambda>n.
               Inl (ValueError (msg_out_of_index (fst qb) n (snd qb))))
        else if snd qb = 0
        then bind (getitem (qubits self) (fst qb - 1)) (\<lambda>q.
               Inr (add_error_gate self q error_gate))
        else bind (list_getitem (anc_qubit self) (fst qb - 1)) (\<lambda>r.
             bind (getitem r (snd qb - 1)) (\<lambda>q.
               Inr (add_error_gate self q error_gate)))))"

subsection \<open>Measurement\<close>

definition add_measurement :: "bell_circuit \<Rightarrow> bool \<Rightarrow> error + (bell_circuit \<times> quantum_circuit)" where
  "add_measurement self in_pace =
     bind (getitem (qubits self) 0) (\<lambda>q0.
     bind (getitem (qubits self) 1) (\<lambda>q1.
       let c = emit (circuit self)
                 ([CX q0 q1, H q0]
                  @ map (\<lambda>(q, k). Measure q (Clbit k)) (zip (bits (qubits self)) [0..<cbits self]))
       in Inr (if in_pace then self\<lparr>circuit := c\<rparr> else self, c)))"

subsection \<open>Assembling the four circuits\<close>

text \<open>The loop \<open>for qubit, error in errors: self.add_error(qubit, error)\<close>.\<close>

fun add_errors :: "bell_circuit \<Rightarrow> ((int \<times> int) \<times> string) list \<Rightarrow> error + bell_circuit" where
  "add_errors self [] = Inr self"
| "add_errors self ((qb, e) # rest) = bind (add_error self qb e) (\<lambda>s. add_errors s rest)"

text \<open>
  The guard at the head of the three correcting assemblies:
  \<open>if self.anc_qubit[0].size < k or self.anc_qubit[1].size < k: raise Exception(...)\<close>.
  The message reads both sizes.
\<close>

definition require_ancillas :: "bell_circuit \<Rightarrow> nat \<Rightarrow> string \<Rightarrow> error + unit" where
  "require_ancillas self k what =
     bind (list_getitem (anc_qubit self) 0) (\<lambda>r0.
     bind (if size_reg r0 < k then Inr True
           else bind (list_getitem (anc_qubit self) 1) (\<lambda>r1. Inr (size_reg r1 < k))) (\<lambda>bad.
       if bad
       then bind (list_getitem (anc_qubit self) 1) (\<lambda>r1.
              Inl (Exception (what @ msg_both (size_reg r0) (size_reg r1))))
       else Inr ()))"

text \<open>
  \<open>self.circuit.append(Instruction(name, k, 0, []), qargs)\<close>, the placeholder operation of
  the diagram mode: the library refuses it when \<open>qargs\<close> does not hold exactly the \<open>k\<close>
  qubits the instruction was declared with.
\<close>

definition append_instruction ::
  "bell_circuit \<Rightarrow> string \<Rightarrow> nat \<Rightarrow> qubit list \<Rightarrow> error + bell_circuit" where
  "append_instruction self name k qargs =
     (if length qargs \<noteq> k then Inl CircuitError
      else Inr (app self [Instruction name k 0 qargs]))"

definition concrete_errors ::
  "bell_circuit \<Rightarrow> ((int \<times> int) \<times> string) list \<Rightarrow> error + bell_circuit" where
  "concrete_errors self errors = bind (add_errors self errors) (\<lambda>s. Inr (app s [Barrier]))"

text \<open>The common tail: entangling gate, barrier, \<open>self.add_measurement()\<close>.\<close>

definition entangle_and_measure :: "bell_circuit \<Rightarrow> error + bell_circuit" where
  "entangle_and_measure self =
     bind (getitem (qubits self) 0) (\<lambda>q0.
     bind (getitem (qubits self) 1) (\<lambda>q1.
     bind (add_measurement (app self [CX q0 q1, Barrier]) True) (\<lambda>(s, c). Inr s)))"

definition create_circuit_with_no_correction ::
  "bell_circuit \<Rightarrow> ((int \<times> int) \<times> string) list \<Rightarrow> bool \<Rightarrow> error + bell_circuit" where
  "create_circuit_with_no_correction self errors symb_err =
     bind (getitem (qubits self) 0) (\<lambda>q0.
     bind (if symb_err
           then bind (append_instruction (app self [H q0, Barrier]) ''err_1'' 1 [q0]) (\<lambda>s.
                bind (getitem (qubits self) 1) (\<lambda>q1.
                bind (append_instruction s ''err_2'' 1 [q1]) (\<lambda>s.
                  Inr (app s [Barrier]))))
           else concrete_errors (app self [H q0, Barrier]) errors) (\<lambda>s.
       entangle_and_measure s))"

definition create_circuit_with_simple_correction ::
  "bell_circuit \<Rightarrow> ((int \<times> int) \<times> string) list \<Rightarrow> bool \<Rightarrow> error + bell_circuit" where
  "create_circuit_with_simple_correction self errors symb_err =
     bind (require_ancillas self 1 ''This method requires one ancilla per each qubit. '') (\<lambda>_.
     bind (getitem (qubits self) 0) (\<lambda>q0.
     bind (if symb_err
           then bind (append_instruction (app self [H q0, Barrier]) ''err_1'' 1 [q0]) (\<lambda>s.
                bind (getitem (qubits self) 1) (\<lambda>q1.
                bind (append_instruction s ''err_2'' 1 [q1]) (\<lambda>s.
                  Inr (app s [Barrier]))))
           else concrete_errors (app self [H q0, Barrier]) errors) (\<lambda>s.
     bind (add_x_pf_corr s 1 True) (\<lambda>(s, c).
     bind (add_zero_bf_corr (app s [Barrier]) 2 True) (\<lambda>(s, c).
       entangle_and_measure (app s [Barrier]))))))"

definition create_circuit_with_simple_repetition ::
  "bell_circuit \<Rightarrow> ((int \<times> int) \<times> string) list \<Rightarrow> bool \<Rightarrow> error + bell_circuit" where
  "create_circuit_with_simple_repetition self errors symb_err =
     bind (require_ancillas self 2 ''This method requires two ancillas per each qubit. '') (\<lambda>_.
     bind (getitem (qubits self) 0) (\<lambda>q0.
     bind (if symb_err
           then bind (list_getitem (anc_qubit self) 0) (\<lambda>r0.
                bind (append_instruction (app self [H q0, Barrier]) ''err_1'' 3
                        (q0 # bits r0)) (\<lambda>s.
                bind (getitem (qubits self) 1) (\<lambda>q1.
                bind (list_getitem (anc_qubit self) 1) (\<lambda>r1.
                bind (append_instruction s ''err_2'' 3 (q1 # bits r1)) (\<lambda>s.
                  Inr (app s [Barrier]))))))
           else concrete_errors (app self [H q0, Barrier]) errors) (\<lambda>s.
     bind (add_x_pf_corr_with_repetition s 1 True) (\<lambda>(s, c).
     bind (add_zero_bf_corr_with_repetition (app s [Barrier]) 2 True) (\<lambda>(s, c).
       entangle_and_measure (app s [Barrier]))))))"

text \<open>
  The two private steps of the Shor code, on a primary qubit and its ancilla register.
  A gate whose target is a slice is applied to each qubit of the slice.
\<close>

definition prepare_repetition :: "bell_circuit \<Rightarrow> qubit \<Rightarrow> register \<Rightarrow> error + bell_circuit" where
  "prepare_repetition self q ancillas =
     bind (getitem ancillas 2) (\<lambda>a2.
     bind (getitem ancillas 5) (\<lambda>a5.
       Inr (app self
         ([CX q a2, CX q a5, H q, H a2, H a5, Barrier]
          @ map (CX q) (slice ancillas 0 2)
          @ map (CX a2) (slice ancillas 3 5)
          @ map (CX a5) (slice_from ancillas 6)
          @ [Barrier]))))"

definition add_shor_correction :: "bell_circuit \<Rightarrow> qubit \<Rightarrow> register \<Rightarrow> error + bell_circuit" where
  "add_shor_correction self q ancillas =
     bind (getitem ancillas 2) (\<lambda>a2.
     bind (getitem ancillas 5) (\<lambda>a5.
     bind (getitem ancillas 0) (\<lambda>a0.
     bind (getitem ancillas 1) (\<lambda>a1.
     bind (getitem ancillas 3) (\<lambda>a3.
     bind (getitem ancillas 4) (\<lambda>a4.
     bind (getitem ancillas 6) (\<lambda>a6.
     bind (getitem ancillas 7) (\<lambda>a7.
       Inr (app self
         (map (CX q) (slice ancillas 0 2)
          @ map (CX a2) (slice ancillas 3 5)
          @ map (CX a5) (slice_from ancillas 6)
          @ [Barrier, CCX a0 a1 q, CCX a3 a4 a2, CCX a6 a7 a5, Barrier,
             H q, H a2, H a5, CX q a2, CX q a5, Barrier,
             CCX a2 a5 q, Barrier]))))))))))"

definition create_circuit_with_shor_correction ::
  "bell_circuit \<Rightarrow> ((int \<times> int) \<times> string) list \<Rightarrow> bool \<Rightarrow> error + bell_circuit" where
  "create_circuit_with_shor_correction self errors symb_err =
     bind (require_ancillas self 8 ''This method requires eight ancillas per each qubit. '') (\<lambda>_.
     bind (getitem (qubits self) 0) (\<lambda>q0.
     bind (list_getitem (anc_qubit self) 0) (\<lambda>r0.
     bind (prepare_repetition (app self [H q0, Barrier]) q0 r0) (\<lambda>s.
     bind (getitem (qubits self) 1) (\<lambda>q1.
     bind (list_getitem (anc_qubit self) 1) (\<lambda>r1.
     bind (prepare_repetition s q1 r1) (\<lambda>s.
     bind (if symb_err
           then bind (append_instruction s ''err_1'' 9 (q0 # bits r0)) (\<lambda>s.
                bind (append_instruction s ''err_2'' 9 (q1 # bits r1)) (\<lambda>s.
                  Inr (app s [Barrier])))
           else concrete_errors s errors) (\<lambda>s.
     bind (add_shor_correction s q0 r0) (\<lambda>s.
     bind (add_shor_correction s q1 r1) (\<lambda>s.
       entangle_and_measure s))))))))))"

section \<open>The simulation orchestrator\<close>

text \<open>
  A \<open>Dict[str, int]\<close> of measurement counts and the dictionary from error keys to such
  counts are maps. The backend is outside the repository: it is a parameter that takes
  the circuit and the backend's own state (whatever its sampling depends on) and gives
  the counts and the next state, so that every call of \<open>execute\<close> is visible.
\<close>

type_synonym counts = "string \<rightharpoonup> int"

type_synonym 'b executor = "quantum_circuit \<Rightarrow> 'b \<Rightarrow> counts \<times> 'b"

text \<open>\<open>for key, value in counts.items(): acc[key] += value\<close>, a missing key counting 0.\<close>

definition add_counts :: "counts \<Rightarrow> counts \<Rightarrow> counts" where
  "add_counts acc cs =
     (\<lambda>k. case cs k of None \<Rightarrow> acc k
          | Some v \<Rightarrow> Some ((case acc k of None \<Rightarrow> 0 | Some a \<Rightarrow> a) + v))"

definition error_key :: "int \<Rightarrow> string \<Rightarrow> int \<Rightarrow> string \<Rightarrow> string" where
  "error_key i1 g1 i2 g2 =
     ''[('' @ str_int i1 @ '', '' @ g1 @ ''), ('' @ str_int i2 @ '', '' @ g2 @ '')]''"

definition get_circuit_to_print :: "nat \<Rightarrow> string \<Rightarrow> error + quantum_circuit" where
  "get_circuit_to_print n_ancillas correction_type =
     (let qc = BellCircuit n_ancillas n_ancillas
      in bind (if correction_type = ''simple''
               then create_circuit_with_simple_correction qc [] True
               else if correction_type = ''repetition_simple''
               then create_circuit_with_simple_repetition qc [] True
               else if correction_type = ''shor''
               then create_circuit_with_shor_correction qc [] True
               else create_circuit_with_no_correction qc [] True)
           (\<lambda>qc. Inr (circuit qc)))"

definition run_one_combination ::
  "'b executor \<Rightarrow> nat \<Rightarrow> string \<Rightarrow> ((int \<times> int) \<times> string) list \<Rightarrow> 'b
     \<Rightarrow> error + ((counts \<times> string) \<times> 'b)" where
  "run_one_combination exec n_ancillas correction_type errors b =
     (let qc = BellCircuit n_ancillas n_ancillas
      in bind (list_getitem errors 0) (\<lambda>e0.
         bind (list_getitem errors 1) (\<lambda>e1.
         bind (if correction_type = ''simple''
               then bind (create_circuit_with_simple_correction qc
                            [((1, 0), snd e0), ((2, 0), snd e1)] False)
                      (\<lambda>qc. Inr (qc, error_key 0 (snd e0) 0 (snd e1)))
               else bind (if correction_type = ''repetition_simple''
                          then create_circuit_with_simple_repetition qc errors False
                          else if correction_type = ''shor''
                          then create_circuit_with_shor_correction qc errors False
                          else create_circuit_with_no_correction qc errors False)
                      (\<lambda>qc. Inr (qc, error_key (snd (fst e0)) (snd e0) (snd (fst e1)) (snd e1))))
           (\<lambda>(qc, error).
              Inr ((fst (exec (circuit qc) b), error), snd (exec (circuit qc) b))))))"

subsection \<open>All combinations\<close>

definition error_gates :: "string list" where
  "error_gates = [''i'', ''x'', ''z'']"

text \<open>The four nested \<open>for\<close> loops, as the list of configurations in the order they run.\<close>

definition all_configs :: "nat \<Rightarrow> (int \<times> int \<times> string \<times> string) list" where
  "all_configs n_ancillas =
     concat (map (\<lambda>qubit_group_1.
       concat (map (\<lambda>qubit_group_2.
         concat (map (\<lambda>err_1.
           map (\<lambda>err_2. (int qubit_group_1, int qubit_group_2, err_1, err_2)) error_gates)
         error_gates))
       [0..<n_ancillas + 1]))
     [0..<n_ancillas + 1])"

definition errors_of :: "int \<times> int \<times> string \<times> string \<Rightarrow> ((int \<times> int) \<times> string) list" where
  "errors_of cfg =
     (case cfg of (q1, q2, e1, e2) \<Rightarrow> [((1, q1), e1), ((2, q2), e2)])"

text \<open>
  The loop body: the combination is run first, and only then is its key looked up;
  \<open>continue\<close> leaves both accumulators as they are.
\<close>

fun all_loop ::
  "'b executor \<Rightarrow> nat \<Rightarrow> string \<Rightarrow> (int \<times> int \<times> string \<times> string) list
     \<Rightarrow> counts \<times> (string \<rightharpoonup> counts) \<Rightarrow> 'b
     \<Rightarrow> error + ((counts \<times> (string \<rightharpoonup> counts)) \<times> 'b)" where
  "all_loop exec n ct [] acc b = Inr (acc, b)"
| "all_loop exec n ct (cfg # rest) acc b =
     bind (run_one_combination exec n ct (errors_of cfg) b) (\<lambda>((cs, error), b').
       if snd acc error \<noteq> None then all_loop exec n ct rest acc b'
       else all_loop exec n ct rest (add_counts (fst acc) cs, (snd acc)(error \<mapsto> cs)) b')"

definition run_all_combinations ::
  "'b executor \<Rightarrow> nat \<Rightarrow> string \<Rightarrow> 'b \<Rightarrow> error + ((counts \<times> (string \<rightharpoonup> counts)) \<times> 'b)" where
  "run_all_combinations exec n_ancillas correction_type b =
     all_loop exec n_ancillas correction_type (all_configs n_ancillas) (Map.empty, Map.empty) b"

subsection \<open>Random errors\<close>

text \<open>
  Python's \<open>random\<close> module is a global generator. Its state is passed explicitly;
  the generator itself is a parameter: what \<open>random.seed(a)\<close> makes of a seed,
  \<open>random.randint\<close>, and \<open>random.choices(population, weights=w)\<close>, which returns a list
  or raises. \<open>random.seed(None)\<close> takes the new state from the operating system.
\<close>

record ('g, 'sd, 'w) random_module =
  seed_with :: "'sd \<Rightarrow> 'g"
  randint :: "int \<Rightarrow> int \<Rightarrow> 'g \<Rightarrow> int \<times> 'g"
  choices :: "string list \<Rightarrow> 'w \<Rightarrow> 'g \<Rightarrow> error + (string list \<times> 'g)"

definition random_seed :: "('g, 'sd, 'w) random_module \<Rightarrow> 'sd option \<Rightarrow> 'g \<Rightarrow> 'g" where
  "random_seed R seed os_state = (case seed of None \<Rightarrow> os_state | Some a \<Rightarrow> seed_with R a)"

fun random_loop ::
  "('g, 'sd, 'w) random_module \<Rightarrow> 'b executor \<Rightarrow> nat \<Rightarrow> string \<Rightarrow> 'w \<Rightarrow> nat
     \<Rightarrow> counts \<times> (string \<rightharpoonup> counts) \<Rightarrow> 'g \<Rightarrow> 'b
     \<Rightarrow> error + ((counts \<times> (string \<rightharpoonup> counts)) \<times> 'g \<times> 'b)" where
  "random_loop R exec n ct probabilities 0 acc g b = Inr (acc, g, b)"
| "random_loop R exec n ct probabilities (Suc k) acc g b =
     (let (qubit_group_1, g1) = randint R 0 (int n) g;
          (qubit_group_2, g2) = randint R 0 (int n) g1
      in bind (choices R error_gates probabilities g2) (\<lambda>(err_1, g3).
         bind (choices R error_gates probabilities g3) (\<lambda>(err_2, g4).
         bind (list_getitem err_1 0) (\<lambda>e1.
         bind (list_getitem err_2 0) (\<lambda>e2.
         bind (run_one_combination exec n ct
                 [((1, qubit_group_1), e1), ((2, qubit_group_2), e2)] b) (\<lambda>((cs, error), b').
           random_loop R exec n ct probabilities k
             (add_counts (fst acc) cs,
              (snd acc)(error \<mapsto> (case snd acc error of None \<Rightarrow> cs
                                     | Some old \<Rightarrow> add_counts old cs)))
             g4 b'))))))"

text \<open>
  \<open>run_random_errors\<close>: \<open>g\<close> is the state the global generator had before the call and
  \<open>os_state\<close> what the operating system would seed it with; \<open>range(iterations)\<close> is empty
  for a negative count.
\<close>

definition run_random_errors ::
  "('g, 'sd, 'w) random_module \<Rightarrow> 'b executor \<Rightarrow> nat \<Rightarrow> string \<Rightarrow> int \<Rightarrow> 'w \<Rightarrow> 'sd option
     \<Rightarrow> 'g \<Rightarrow> 'g \<Rightarrow> 'b \<Rightarrow> error + ((counts \<times> (string \<rightharpoonup> counts)) \<times> 'g \<times> 'b)" where
  "run_random_errors R exec n_ancillas correction_type iterations probabilities seed os_state g b =
     random_loop R exec n_ancillas correction_type probabilities (nat iterations)
       (Map.empty, Map.empty) (random_seed R seed os_state) b"

section \<open>The builder's operations as one interface\<close>

text \<open>
  The six operations that add to the circuit, each with the parameters its signature
  has. Five take an in-place flag (\<open>add_measurement\<close> spells it \<open>in_pace\<close>) and return
  the new circuit; \<open>add_error\<close> takes none and returns \<open>None\<close>.
\<close>

datatype builder_op =
    Add_zero_bf_corr int bool
  | Add_x_pf_corr int bool
  | Add_zero_bf_corr_with_repetition int bool
  | Add_x_pf_corr_with_repetition int bool
  | Add_measurement bool
  | Add_error "int \<times> int" string

definition returning :: "error + (bell_circuit \<times> quantum_circuit) \<Rightarrow> error + (bell_circuit \<times> quantum_circuit option)" where
  "returning m = bind m (\<lambda>(s, c). Inr (s, Some c))"

fun call :: "bell_circuit \<Rightarrow> builder_op \<Rightarrow> error + (bell_circuit \<times> quantum_circuit option)" where
  "call self (Add_zero_bf_corr qb in_place) = returning (add_zero_bf_corr self qb in_place)"
| "call self (Add_x_pf_corr qb in_place) = returning (add_x_pf_corr self qb in_place)"
| "call self (Add_zero_bf_corr_with_repetition qb in_place) =
     returning (add_zero_bf_corr_with_repetition self qb in_place)"
| "call self (Add_x_pf_corr_with_repetition qb in_place) =
     returning (add_x_pf_corr_with_repetition self qb in_place)"
| "call self (Add_measurement in_pace) = returning (add_measurement self in_pace)"
| "call self (Add_error qb error_gate) =
     bind (add_error self qb error_gate) (\<lambda>s. Inr (s, None))"

fun in_place_flag :: "builder_op \<Rightarrow> bool option" where
  "in_place_flag (Add_zero_bf_corr qb in_place) = Some in_place"
| "in_place_flag (Add_x_pf_corr qb in_place) = Some in_place"
| "in_place_flag (Add_zero_bf_corr_with_repetition qb in_place) = Some in_place"
| "in_place_flag (Add_x_pf_corr_with_repetition qb in_place) = Some in_place"
| "in_place_flag (Add_measurement in_pace) = Some in_pace"
| "in_place_flag (Add_error qb error_gate) = None"

text \<open>
  The property that a call either replaces the builder's circuit by the returned one
  (flag set) or leaves the builder as it was (flag clear), the operation having a flag.
\<close>

definition controlled_by_flag :: "bell_circuit \<Rightarrow> builder_op \<Rightarrow> bool" where
  "controlled_by_flag self op =
     (case call self op of
        Inl e \<Rightarrow> True
      | Inr (self', r) \<Rightarrow>
          (case (in_place_flag op, r) of
             (Some f, Some c) \<Rightarrow> self' = (if f then self\<lparr>circuit := c\<rparr> else self)
           | _ \<Rightarrow> False))"

section \<open>Notions used to state the properties\<close>

text \<open>The gates \<open>add_error_gate\<close> appends for a gate string on a qubit.\<close>

definition error_ops :: "string \<Rightarrow> qubit \<Rightarrow> gate_op list" where
  "error_ops gate q = (if gate = ''z'' then [Z q] else if gate = ''x'' then [X q] else [])"

text \<open>
  The ancilla count each assembly asks for: one for \<open>'simple'\<close>, two for
  \<open>'repetition_simple'\<close>, eight for \<open>'shor'\<close>; every other correction type takes the
  branch without correction, which asks for none.
\<close>

definition ancillas_suffice :: "string \<Rightarrow> nat \<Rightarrow> bool" where
  "ancillas_suffice correction_type n =
     (if correction_type = ''simple'' then 1 \<le> n
      else if correction_type = ''repetition_simple'' then 2 \<le> n
      else if correction_type = ''shor'' then 8 \<le> n
      else True)"

text \<open>An error descriptor of a builder with \<open>n\<close> ancillas per group.\<close>

definition valid_error :: "nat \<Rightarrow> (int \<times> int) \<times> string \<Rightarrow> bool" where
  "valid_error n e = (fst (fst e) \<in> {1, 2} \<and> 0 \<le> snd (fst e) \<and> snd (fst e) \<le> int n)"

text \<open>
  The exhaustive mode in the words of the specification, to compare the loop with: every
  configuration is run once, in order, each run starting from the backend state the
  previous one left (\<open>run_each\<close>); then, of the runs, the first one of each key is kept
  (\<open>first_runs\<close>, \<open>seen\<close> being the keys met so far).
\<close>

fun run_each ::
  "'b executor \<Rightarrow> nat \<Rightarrow> string \<Rightarrow> (int \<times> int \<times> string \<times> string) list \<Rightarrow> 'b
     \<Rightarrow> error + ((string \<times> counts) list \<times> 'b)" where
  "run_each exec n ct [] b = Inr ([], b)"
| "run_each exec n ct (cfg # rest) b =
     bind (run_one_combination exec n ct (errors_of cfg) b) (\<lambda>((cs, key), b').
     bind (run_each exec n ct rest b') (\<lambda>(runs, b'').
       Inr ((key, cs) # runs, b'')))"

fun first_runs :: "string set \<Rightarrow> (string \<times> counts) list \<Rightarrow> (string \<times> counts) list" where
  "first_runs seen [] = []"
| "first_runs seen ((key, cs) # runs) =
     (if key \<in> seen then first_runs seen runs
      else (key, cs) # first_runs (insert key seen) runs)"

text \<open>
  The key \<open>run_one_combination\<close> returns for a configuration: the f-string of the two
  indices and gates, with both indices replaced by 0 for \<open>'simple'\<close>.
\<close>

definition canonical_key :: "string \<Rightarrow> int \<times> int \<times> string \<times> string \<Rightarrow> string" where
  "canonical_key correction_type cfg =
     (case cfg of (q1, q2, e1, e2) \<Rightarrow>
        if correction_type = ''simple'' then error_key 0 e1 0 e2 else error_key q1 e1 q2 e2)"

text \<open>A backend that counts its calls and always reports 1000 shots of \<open>00\<close>.\<close>

definition counting_backend :: "nat executor" where
  "counting_backend qc calls = ([''00'' \<mapsto> 1000], Suc calls)"

text \<open>
  Read off a result of the exhaustive mode: how often the counting backend was called,
  and how many keys the per-key dictionary holds.
\<close>

definition calls_made :: "error + ('a \<times> nat) \<Rightarrow> error + nat" where
  "calls_made r = map_sum id snd r"

definition keys_recorded :: "error + ((counts \<times> (string \<rightharpoonup> counts)) \<times> 'b) \<Rightarrow> error + nat" where
  "keys_recorded r = map_sum id (\<lambda>((ac, etc), b). card (dom etc)) r"

text \<open>The result of a random run without the state the backend was left in.\<close>

definition without_backend :: "error + ('r \<times> 'g \<times> 'b) \<Rightarrow> error + ('r \<times> 'g)" where
  "without_backend m = map_sum id (\<lambda>(r, g, b). (r, g)) m"

text \<open>
  A small generator to run the random mode on: the state is a counter, the seed is the
  counter's start.
\<close>

definition toy_random :: "(nat, nat, unit) random_module" where
  "toy_random =
     \<lparr>seed_with = (\<lambda>a. a),
      randint = (\<lambda>lo hi g. (lo + int (g mod (nat (hi - lo) + 1)), Suc g)),
      choices = (\<lambda>population w g.
                   if population = [] then Inl IndexError
                   else Inr ([population ! (g mod length population)], Suc g))\<rparr>"

section \<open>Basic facts\<close>

lemma list_getitem_simps [simp]:
  "list_getitem [] k = Inl IndexError"
  "list_getitem (x # xs) 0 = Inr x"
  "list_getitem [x, y] 1 = Inr y"
  by (simp_all add: list_getitem_def)

lemma bind_simps [simp]: "bind (Inl e) f = Inl e" "bind (Inr a) f = f a"
  by (simp_all add: bind_def)

lemma bind_eq_Inr: "bind m f = Inr y \<longleftrightarrow> (\<exists>a. m = Inr a \<and> f a = Inr y)"
  by (cases m) simp_all

lemma getitem_nat: "k < size_reg r \<Longrightarrow> getitem r (int k) = Inr (Qubit (name_reg r) k)"
  by (simp add: getitem_def list_getitem_def bits_def)

lemma getitem_0 [simp]: "0 < n \<Longrightarrow> getitem (QuantumRegister n nm) 0 = Inr (Qubit nm 0)"
  using getitem_nat [of 0 "QuantumRegister n nm"] by simp

lemma getitem_1 [simp]: "1 < n \<Longrightarrow> getitem (QuantumRegister n nm) 1 = Inr (Qubit nm 1)"
  using getitem_nat [of 1 "QuantumRegister n nm"] by simp

lemma getitem_pos: "0 < i \<Longrightarrow> i \<le> int n \<Longrightarrow> getitem (QuantumRegister n nm) (i - 1) = Inr (Qubit nm (nat (i - 1)))"
  using getitem_nat [of "nat (i - 1)" "QuantumRegister n nm"] by simp

lemma BellCircuit_sel [simp]:
  "qubits (BellCircuit n1 n2) = QuantumRegister 2 ''qubit''"
  "cbits (BellCircuit n1 n2) = 2"
  "anc_qubit (BellCircuit n1 n2) =
     (if n1 = 0 \<or> n2 = 0 then []
      else [QuantumRegister n1 ''anc_qb1'', QuantumRegister n2 ''anc_qb2''])"
  "circuit (BellCircuit n1 n2) =
     \<lparr>qregs = QuantumRegister 2 ''qubit'' # anc_qubit (BellCircuit n1 n2), cregs = [2], data = []\<rparr>"
  by (simp_all add: BellCircuit_def QuantumCircuit_def Let_def)

section \<open>The register model\<close>

text \<open>
  Claim C7. Constructing a \<open>BellCircuit\<close> with the first or the second ancilla count
  zero allocates no ancilla register at all, whatever the other count is: the builder's
  list of ancilla registers is empty and the circuit holds the primary register only.
\<close>

theorem no_ancillas_when_either_count_zero:
  "n1 = 0 \<or> n2 = 0 \<Longrightarrow>
     anc_qubit (BellCircuit n1 n2) = [] \<and>
     qregs (circuit (BellCircuit n1 n2)) = [QuantumRegister 2 ''qubit'']"
  by auto

theorem no_ancillas_when_either_count_zero_witness:
  "((0::nat) = 0 \<or> (5::nat) = 0) \<and> anc_qubit (BellCircuit 0 5) = [] \<and>
     qregs (circuit (BellCircuit 0 5)) = [QuantumRegister 2 ''qubit'']"
  using no_ancillas_when_either_count_zero [of 0 5] by simp

text \<open>
  Claim C8, as stated, fails: the constructor keeps two different nonzero counts as
  they are given. \<open>BellCircuit(1, 2)\<close> has one ancilla in group 1 and two in group 2.
\<close>

theorem ancilla_counts_differ_counterexample:
  "n_ancillas_of (BellCircuit 1 2) 1 \<noteq> n_ancillas_of (BellCircuit 1 2) 2"
  by (simp add: n_ancillas_of_def)

text \<open>
  Claim C8, amended. The constructor keeps the two counts as they are given when both
  are nonzero: group 1 has \<open>n1\<close> ancillas and group 2 has \<open>n2\<close>, in registers of those
  sizes. When at least one count is zero neither group has any ancilla. So the two groups
  hold the same number of ancillas exactly when the constructor was given equal counts or
  at least one zero count.
\<close>

theorem ancilla_counts_as_given:
  "n_ancillas_of (BellCircuit n1 n2) 1 = Inr (if n1 = 0 \<or> n2 = 0 then 0 else n1)
   \<and> n_ancillas_of (BellCircuit n1 n2) 2 = Inr (if n1 = 0 \<or> n2 = 0 then 0 else n2)
   \<and> (n1 = 0 \<or> n2 = 0 \<longrightarrow> anc_qubit (BellCircuit n1 n2) = [])
   \<and> (n1 \<noteq> 0 \<and> n2 \<noteq> 0 \<longrightarrow>
          anc_qubit (BellCircuit n1 n2)
            = [QuantumRegister n1 ''anc_qb1'', QuantumRegister n2 ''anc_qb2''])
   \<and> ((n_ancillas_of (BellCircuit n1 n2) 1 = n_ancillas_of (BellCircuit n1 n2) 2)
          = (n1 = 0 \<or> n2 = 0 \<or> n1 = n2))"
  by (auto simp: n_ancillas_of_def)

theorem ancilla_counts_as_given_witness:
  "n_ancillas_of (BellCircuit 2 2) 1 = Inr 2 \<and> n_ancillas_of (BellCircuit 2 2) 2 = Inr 2
   \<and> n_ancillas_of (BellCircuit 0 3) 1 = Inr 0 \<and> n_ancillas_of (BellCircuit 0 3) 2 = Inr 0
   \<and> anc_qubit (BellCircuit 0 3) = []
   \<and> anc_qubit (BellCircuit 1 2) = [QuantumRegister 1 ''anc_qb1'', QuantumRegister 2 ''anc_qb2'']
   \<and> n_ancillas_of (BellCircuit 1 2) 1 = Inr 1 \<and> n_ancillas_of (BellCircuit 1 2) 2 = Inr 2"
  using ancilla_counts_as_given [of 2 2] ancilla_counts_as_given [of 0 3]
    ancilla_counts_as_given [of 1 2]
  by simp

section \<open>Error injection\<close>

text \<open>
  Claim C3. On a builder whose groups were allocated \<open>n\<close> ancillas each, whatever its
  circuit holds so far, and for a group \<open>g\<close> of 1 or 2: \<open>add_error\<close> with index \<open>n\<close>
  succeeds and applies the gate to the \<open>n\<close>-th ancilla of the group (to the primary qubit
  when \<open>n\<close> is 0); with any index above \<open>n\<close> it raises the \<open>ValueError\<close> of the index
  check; with a nonzero index and no ancillas it raises that \<open>ValueError\<close>; and with a
  group other than 1 and 2 it raises the \<open>ValueError\<close> of the group check.
\<close>

theorem add_error_boundaries:
  assumes "self = (BellCircuit n n)\<lparr>circuit := qc\<rparr>"
  shows "(g \<in> {1, 2} \<longrightarrow>
            add_error self (g, int n) gate =
              Inr (add_error_gate self
                     (if n = 0 then Qubit ''qubit'' (nat (g - 1))
                      else Qubit (if g = 1 then ''anc_qb1'' else ''anc_qb2'') (n - 1)) gate))
       \<and> (g \<in> {1, 2} \<and> int n < i \<longrightarrow>
            add_error self (g, i) gate = Inl (ValueError (msg_out_of_index g n i)))
       \<and> (g \<in> {1, 2} \<and> n = 0 \<and> i \<noteq> 0 \<longrightarrow>
            add_error self (g, i) gate = Inl (ValueError (msg_out_of_index g 0 i)))
       \<and> (g \<notin> {1, 2} \<longrightarrow>
            add_error self (g, i) gate = Inl (ValueError (msg_not_valid_error_qubit g)))"
proof (intro conjI impI)
  assume g: "g \<in> {1, 2}"
  show "add_error self (g, int n) gate =
              Inr (add_error_gate self
                     (if n = 0 then Qubit ''qubit'' (nat (g - 1))
                      else Qubit (if g = 1 then ''anc_qb1'' else ''anc_qb2'') (n - 1)) gate)"
  proof (cases "n = 0")
    case True
    with g assms show ?thesis
      by (auto simp: add_error_def out_of_index_def)
  next
    case False
    then have "getitem (QuantumRegister n nm) (int n - 1) = Inr (Qubit nm (n - 1))" for nm
      using getitem_pos [of "int n" n nm] by (simp add: nat_diff_distrib')
    with False g assms show ?thesis
      by (auto simp: add_error_def out_of_index_def)
  qed
next
  assume "g \<in> {1, 2} \<and> int n < i"
  with assms show "add_error self (g, i) gate = Inl (ValueError (msg_out_of_index g n i))"
    by (auto simp: add_error_def out_of_index_def n_ancillas_of_def)
next
  assume "g \<in> {1, 2} \<and> n = 0 \<and> i \<noteq> 0"
  with assms show "add_error self (g, i) gate = Inl (ValueError (msg_out_of_index g 0 i))"
    by (auto simp: add_error_def out_of_index_def n_ancillas_of_def)
next
  assume "g \<notin> {1, 2}"
  then show "add_error self (g, i) gate = Inl (ValueError (msg_not_valid_error_qubit g))"
    by (simp add: add_error_def)
qed

theorem add_error_boundaries_witness:
  "add_error (BellCircuit 2 2) (1, 2) ''x''
     = Inr (add_error_gate (BellCircuit 2 2) (Qubit ''anc_qb1'' 1) ''x'')
   \<and> add_error (BellCircuit 2 2) (1, 3) ''x'' = Inl (ValueError (msg_out_of_index 1 2 3))
   \<and> add_error (BellCircuit 0 0) (2, 1) ''x'' = Inl (ValueError (msg_out_of_index 2 0 1))
   \<and> add_error (BellCircuit 2 2) (3, 0) ''x'' = Inl (ValueError (msg_not_valid_error_qubit 3))"
proof -
  have a: "BellCircuit 2 2 = (BellCircuit 2 2)\<lparr>circuit := circuit (BellCircuit 2 2)\<rparr>"
    and b: "BellCircuit 0 0 = (BellCircuit 0 0)\<lparr>circuit := circuit (BellCircuit 0 0)\<rparr>"
    by simp_all
  show ?thesis
    using add_error_boundaries [OF a, of 1 "''x''" 3]
      add_error_boundaries [OF b, of 2 "''x''" 1]
      add_error_boundaries [OF a, of 3 "''x''" 0]
    by simp
qed




section \<open>Correction gadgets\<close>

text \<open>
  Claim C4 at the input where the code departs from it: on a builder constructed with
  zero ancillas, each of the four gadgets, called with group 1, stops with the bare
  \<open>IndexError\<close> of \<open>self.anc_qubit[qubit - 1]\<close> on the empty list, before the check
  that formats the message about the missing ancillas is reached.
\<close>

theorem gadget_without_ancillas_index_error:
  "add_zero_bf_corr (BellCircuit 0 0) 1 True = Inl IndexError
   \<and> add_x_pf_corr (BellCircuit 0 0) 1 True = Inl IndexError
   \<and> add_zero_bf_corr_with_repetition (BellCircuit 0 0) 1 True = Inl IndexError
   \<and> add_x_pf_corr_with_repetition (BellCircuit 0 0) 1 True = Inl IndexError"
  by (simp add: add_zero_bf_corr_def add_x_pf_corr_def
      add_zero_bf_corr_with_repetition_def add_x_pf_corr_with_repetition_def)

text \<open>The other two cases of the gadgets' validation do raise the formatted errors.\<close>

lemma gadget_rejects_group:
  "qb \<notin> {1, 2} \<Longrightarrow>
     add_zero_bf_corr self qb f = Inl (ValueError (msg_only_2_qubits qb))
   \<and> add_x_pf_corr self qb f = Inl (ValueError (msg_only_2_qubits qb))
   \<and> add_zero_bf_corr_with_repetition self qb f = Inl (ValueError (msg_only_2_qubits qb))
   \<and> add_x_pf_corr_with_repetition self qb f = Inl (ValueError (msg_only_2_qubits qb))"
  by (simp add: add_zero_bf_corr_def add_x_pf_corr_def
      add_zero_bf_corr_with_repetition_def add_x_pf_corr_with_repetition_def)

lemma repetition_gadget_rejects_one_ancilla:
  "qb \<in> {1, 2} \<Longrightarrow>
     add_zero_bf_corr_with_repetition ((BellCircuit 1 1)\<lparr>circuit := qc\<rparr>) qb f
       = Inl (Exception (''This method requires two ancilla per each qubit. '' @ msg_currently qb 1))
   \<and> add_x_pf_corr_with_repetition ((BellCircuit 1 1)\<lparr>circuit := qc\<rparr>) qb f
       = Inl (Exception (''This method requires two ancillas per each qubit. '' @ msg_currently qb 1))"
  by (auto simp: add_zero_bf_corr_with_repetition_def add_x_pf_corr_with_repetition_def)

section \<open>Snapshots and the in-place flag\<close>

text \<open>
  Claim C2, as stated, fails for \<open>add_error\<close>: the operation has no in-place flag and
  returns no circuit; called with \<open>'x'\<close> on the primary qubit of group 1 it changes the
  builder's circuit.
\<close>

theorem add_error_has_no_in_place_flag:
  "\<not> controlled_by_flag (BellCircuit 0 0) (Add_error (1, 0) ''x'')
   \<and> in_place_flag (Add_error (1, 0) ''x'') = None
   \<and> call (BellCircuit 0 0) (Add_error (1, 0) ''x'')
       = Inr (app (BellCircuit 0 0) [X (Qubit ''qubit'' 0)], None)
   \<and> circuit (app (BellCircuit 0 0) [X (Qubit ''qubit'' 0)]) \<noteq> circuit (BellCircuit 0 0)"
  by (simp add: controlled_by_flag_def add_error_def out_of_index_def add_error_gate_def
      app_def emit_def)

lemma add_zero_bf_corr_frame:
  "add_zero_bf_corr self qb f = Inr (self', c) \<Longrightarrow>
     self' = (if f then self\<lparr>circuit := c\<rparr> else self)
     \<and> (\<exists>gs. gs \<noteq> [] \<and> c = emit (circuit self) gs)"
  unfolding add_zero_bf_corr_def by (auto simp: bind_eq_Inr Let_def split: if_splits)

lemma add_x_pf_corr_frame:
  "add_x_pf_corr self qb f = Inr (self', c) \<Longrightarrow>
     self' = (if f then self\<lparr>circuit := c\<rparr> else self)
     \<and> (\<exists>gs. gs \<noteq> [] \<and> c = emit (circuit self) gs)"
  unfolding add_x_pf_corr_def by (auto simp: bind_eq_Inr Let_def split: if_splits)

lemma add_zero_bf_corr_with_repetition_frame:
  "add_zero_bf_corr_with_repetition self qb f = Inr (self', c) \<Longrightarrow>
     self' = (if f then self\<lparr>circuit := c\<rparr> else self)
     \<and> (\<exists>gs. gs \<noteq> [] \<and> c = emit (circuit self) gs)"
  unfolding add_zero_bf_corr_with_repetition_def by (auto simp: bind_eq_Inr Let_def split: if_splits)

lemma add_x_pf_corr_with_repetition_frame:
  "add_x_pf_corr_with_repetition self qb f = Inr (self', c) \<Longrightarrow>
     self' = (if f then self\<lparr>circuit := c\<rparr> else self)
     \<and> (\<exists>gs. gs \<noteq> [] \<and> c = emit (circuit self) gs)"
  unfolding add_x_pf_corr_with_repetition_def by (auto simp: bind_eq_Inr Let_def split: if_splits)

lemma add_measurement_frame:
  "add_measurement self f = Inr (self', c) \<Longrightarrow>
     self' = (if f then self\<lparr>circuit := c\<rparr> else self)
     \<and> (\<exists>gs. gs \<noteq> [] \<and> c = emit (circuit self) gs)"
  unfolding add_measurement_def by (auto simp: bind_eq_Inr Let_def split: if_splits)

lemma returning_eq_Inr:
  "returning m = Inr (self', r) \<longleftrightarrow> (\<exists>c. m = Inr (self', c) \<and> r = Some c)"
  by (cases m) (auto simp: returning_def)

text \<open>
  Claim C2, amended. The four correction gadgets and \<open>add_measurement\<close> return a new
  circuit, the builder's circuit with gates appended; with their flag set the builder's
  circuit becomes that circuit, with the flag clear the builder is left as it was.
  \<open>add_error\<close> has no flag: it returns nothing and the builder after the call is the
  result of \<open>add_error_gate\<close> on the builder itself.
\<close>

theorem in_place_flag_controls:
  assumes "call self op = Inr (self', r)"
  shows "case in_place_flag op of
           Some f \<Rightarrow> (\<exists>c gs. r = Some c \<and> gs \<noteq> [] \<and> c = emit (circuit self) gs
                        \<and> self' = (if f then self\<lparr>circuit := c\<rparr> else self))
         | None \<Rightarrow> r = None \<and> (\<exists>qb g t. op = Add_error qb g \<and> self' = add_error_gate self t g)"
proof (cases op)
  case (Add_zero_bf_corr qb f)
  with assms add_zero_bf_corr_frame [of self qb f self'] show ?thesis
    by (auto simp: returning_eq_Inr)
next
  case (Add_x_pf_corr qb f)
  with assms add_x_pf_corr_frame [of self qb f self'] show ?thesis
    by (auto simp: returning_eq_Inr)
next
  case (Add_zero_bf_corr_with_repetition qb f)
  with assms add_zero_bf_corr_with_repetition_frame [of self qb f self'] show ?thesis
    by (auto simp: returning_eq_Inr)
next
  case (Add_x_pf_corr_with_repetition qb f)
  with assms add_x_pf_corr_with_repetition_frame [of self qb f self'] show ?thesis
    by (auto simp: returning_eq_Inr)
next
  case (Add_measurement f)
  with assms add_measurement_frame [of self f self'] show ?thesis
    by (auto simp: returning_eq_Inr)
next
  case (Add_error qb g)
  with assms show ?thesis
    by (cases qb) (auto simp: add_error_def bind_eq_Inr split: if_splits)
qed

theorem in_place_flag_controls_witness:
  "(\<exists>c gs. gs \<noteq> [] \<and> c = emit (circuit (BellCircuit 1 1)) gs
      \<and> call (BellCircuit 1 1) (Add_zero_bf_corr 1 False) = Inr (BellCircuit 1 1, Some c))
   \<and> (\<exists>t. call (BellCircuit 1 1) (Add_error (1, 1) ''x'')
            = Inr (add_error_gate (BellCircuit 1 1) t ''x'', None))"
proof -
  have a: "call (BellCircuit 1 1) (Add_zero_bf_corr 1 False)
      = Inr (BellCircuit 1 1, Some (emit (circuit (BellCircuit 1 1))
              [CX (Qubit ''qubit'' 0) (Qubit ''anc_qb1'' 0), CX (Qubit ''anc_qb1'' 0) (Qubit ''qubit'' 0)]))"
    by (simp add: returning_def add_zero_bf_corr_def)
  have b: "call (BellCircuit 1 1) (Add_error (1, 1) ''x'')
      = Inr (add_error_gate (BellCircuit 1 1) (Qubit ''anc_qb1'' 0) ''x'', None)"
    by (simp add: add_error_def out_of_index_def)
  show ?thesis
    using in_place_flag_controls [OF a] in_place_flag_controls [OF b] a b
    by auto
qed

section \<open>The assemblies succeed on valid input\<close>

lemma emit_emit [simp]: "emit (emit qc gs) hs = emit qc (gs @ hs)"
  by (simp add: emit_def)

lemma emit_Nil [simp]: "emit qc [] = qc"
  by (simp add: emit_def)

lemma app_upd [simp]: "app (B\<lparr>circuit := qc\<rparr>) gs = B\<lparr>circuit := emit qc gs\<rparr>"
  by (simp add: app_def)

lemma add_error_gate_upd [simp]:
  "add_error_gate (B\<lparr>circuit := qc\<rparr>) t e = B\<lparr>circuit := emit qc (error_ops e t)\<rparr>"
  by (simp add: add_error_gate_def error_ops_def)

lemma add_error_valid:
  assumes "g \<in> {1, 2}" and "0 \<le> i" and "i \<le> int n"
  shows "\<exists>t. add_error ((BellCircuit n n)\<lparr>circuit := qc\<rparr>) (g, i) e
               = Inr ((BellCircuit n n)\<lparr>circuit := emit qc (error_ops e t)\<rparr>)"
proof (cases "i = 0")
  case True
  with assms show ?thesis
    by (auto simp: add_error_def out_of_index_def)
next
  case False
  with assms have "0 < i" by simp
  with assms show ?thesis
    by (auto simp: add_error_def out_of_index_def getitem_pos)
qed

lemma add_errors_valid:
  "\<forall>e \<in> set errors. valid_error n e \<Longrightarrow>
     \<exists>gs. add_errors ((BellCircuit n n)\<lparr>circuit := qc\<rparr>) errors
             = Inr ((BellCircuit n n)\<lparr>circuit := emit qc gs\<rparr>)"
proof (induction errors arbitrary: qc)
  case Nil
  have "add_errors ((BellCircuit n n)\<lparr>circuit := qc\<rparr>) []
     = Inr ((BellCircuit n n)\<lparr>circuit := emit qc []\<rparr>)" by simp
  then show ?case by blast
next
  case (Cons a errors)
  obtain g i e where a: "a = ((g, i), e)" by (metis surj_pair)
  with Cons.prems have v: "g \<in> {1, 2}" "0 \<le> i" "i \<le> int n"
    by (simp_all add: valid_error_def)
  from add_error_valid [OF v, of qc e] obtain t where
    t: "add_error ((BellCircuit n n)\<lparr>circuit := qc\<rparr>) (g, i) e
               = Inr ((BellCircuit n n)\<lparr>circuit := emit qc (error_ops e t)\<rparr>)" by blast
  from Cons.IH [of "emit qc (error_ops e t)"] Cons.prems obtain gs where
    "add_errors ((BellCircuit n n)\<lparr>circuit := emit qc (error_ops e t)\<rparr>) errors
             = Inr ((BellCircuit n n)\<lparr>circuit := emit qc (error_ops e t @ gs)\<rparr>)"
    by auto
  with a t show ?case by auto
qed

lemma concrete_errors_valid:
  "\<forall>e \<in> set errors. valid_error n e \<Longrightarrow>
     \<exists>gs. concrete_errors ((BellCircuit n n)\<lparr>circuit := qc\<rparr>) errors
             = Inr ((BellCircuit n n)\<lparr>circuit := emit qc gs\<rparr>)"
  using add_errors_valid [of errors n qc] by (auto simp: concrete_errors_def)

lemma bits_2 [simp]: "bits (QuantumRegister 2 nm) = [Qubit nm 0, Qubit nm 1]"
  by (simp add: bits_def upt_rec)

lemma add_measurement_upd:
  "add_measurement ((BellCircuit n n)\<lparr>circuit := qc\<rparr>) True
     = Inr ((BellCircuit n n)\<lparr>circuit := emit qc
              [CX (Qubit ''qubit'' 0) (Qubit ''qubit'' 1), H (Qubit ''qubit'' 0),
               Measure (Qubit ''qubit'' 0) (Clbit 0), Measure (Qubit ''qubit'' 1) (Clbit 1)]\<rparr>,
            emit qc
              [CX (Qubit ''qubit'' 0) (Qubit ''qubit'' 1), H (Qubit ''qubit'' 0),
               Measure (Qubit ''qubit'' 0) (Clbit 0), Measure (Qubit ''qubit'' 1) (Clbit 1)])"
  by (simp add: add_measurement_def upt_rec Let_def)

lemma entangle_and_measure_upd:
  "entangle_and_measure ((BellCircuit n n)\<lparr>circuit := qc\<rparr>)
     = Inr ((BellCircuit n n)\<lparr>circuit := emit qc
              [CX (Qubit ''qubit'' 0) (Qubit ''qubit'' 1), Barrier,
               CX (Qubit ''qubit'' 0) (Qubit ''qubit'' 1), H (Qubit ''qubit'' 0),
               Measure (Qubit ''qubit'' 0) (Clbit 0), Measure (Qubit ''qubit'' 1) (Clbit 1)]\<rparr>)"
  by (simp add: entangle_and_measure_def add_measurement_upd)

lemma self_upd: "(BellCircuit n n)\<lparr>circuit := circuit (BellCircuit n n)\<rparr> = BellCircuit n n"
  by simp

lemma no_correction_valid_upd:
  assumes "\<forall>e \<in> set errors. valid_error n e"
  shows "\<exists>qc. create_circuit_with_no_correction ((BellCircuit n n)\<lparr>circuit := qc0\<rparr>) errors False
               = Inr ((BellCircuit n n)\<lparr>circuit := qc\<rparr>)"
proof -
  obtain gs where "concrete_errors ((BellCircuit n n)\<lparr>circuit := 
       emit qc0 [H (Qubit ''qubit'' 0), Barrier]\<rparr>) errors
             = Inr ((BellCircuit n n)\<lparr>circuit := emit (emit qc0 [H (Qubit ''qubit'' 0), Barrier]) gs\<rparr>)"
    using concrete_errors_valid [OF assms] by blast
  then show ?thesis
    unfolding create_circuit_with_no_correction_def
    by (simp add: entangle_and_measure_upd) blast
qed

lemma no_correction_valid:
  assumes "\<forall>e \<in> set errors. valid_error n e"
  shows "\<exists>qc. create_circuit_with_no_correction (BellCircuit n n) errors False
               = Inr ((BellCircuit n n)\<lparr>circuit := qc\<rparr>)"
  using no_correction_valid_upd [OF assms, of "circuit (BellCircuit n n)"]
  unfolding self_upd .

lemma require_ancillas_ok:
  "0 < k \<Longrightarrow> k \<le> n \<Longrightarrow> require_ancillas ((BellCircuit n n)\<lparr>circuit := qc\<rparr>) k what = Inr ()"
  by (simp add: require_ancillas_def)

lemma add_x_pf_corr_upd:
  "1 \<le> n \<Longrightarrow> add_x_pf_corr ((BellCircuit n n)\<lparr>circuit := qc\<rparr>) 1 True
     = Inr ((BellCircuit n n)\<lparr>circuit := emit qc
              [H (Qubit ''qubit'' 0), CX (Qubit ''qubit'' 0) (Qubit ''anc_qb1'' 0),
               CX (Qubit ''anc_qb1'' 0) (Qubit ''qubit'' 0), H (Qubit ''qubit'' 0)]\<rparr>,
            emit qc
              [H (Qubit ''qubit'' 0), CX (Qubit ''qubit'' 0) (Qubit ''anc_qb1'' 0),
               CX (Qubit ''anc_qb1'' 0) (Qubit ''qubit'' 0), H (Qubit ''qubit'' 0)])"
  by (simp add: add_x_pf_corr_def Let_def)

lemma add_zero_bf_corr_upd:
  "1 \<le> n \<Longrightarrow> add_zero_bf_corr ((BellCircuit n n)\<lparr>circuit := qc\<rparr>) 2 True
     = Inr ((BellCircuit n n)\<lparr>circuit := emit qc
              [CX (Qubit ''qubit'' 1) (Qubit ''anc_qb2'' 0),
               CX (Qubit ''anc_qb2'' 0) (Qubit ''qubit'' 1)]\<rparr>,
            emit qc
              [CX (Qubit ''qubit'' 1) (Qubit ''anc_qb2'' 0),
               CX (Qubit ''anc_qb2'' 0) (Qubit ''qubit'' 1)])"
  by (simp add: add_zero_bf_corr_def Let_def)

lemma add_x_pf_corr_with_repetition_upd:
  "2 \<le> n \<Longrightarrow> add_x_pf_corr_with_repetition ((BellCircuit n n)\<lparr>circuit := qc\<rparr>) 1 True
     = Inr ((BellCircuit n n)\<lparr>circuit := emit qc
              [H (Qubit ''qubit'' 0), CX (Qubit ''qubit'' 0) (Qubit ''anc_qb1'' 0),
               CX (Qubit ''qubit'' 0) (Qubit ''anc_qb1'' 1),
               CCX (Qubit ''anc_qb1'' 0) (Qubit ''anc_qb1'' 1) (Qubit ''qubit'' 0),
               H (Qubit ''qubit'' 0)]\<rparr>,
            emit qc
              [H (Qubit ''qubit'' 0), CX (Qubit ''qubit'' 0) (Qubit ''anc_qb1'' 0),
               CX (Qubit ''qubit'' 0) (Qubit ''anc_qb1'' 1),
               CCX (Qubit ''anc_qb1'' 0) (Qubit ''anc_qb1'' 1) (Qubit ''qubit'' 0),
               H (Qubit ''qubit'' 0)])"
  by (simp add: add_x_pf_corr_with_repetition_def Let_def)

lemma add_zero_bf_corr_with_repetition_upd:
  "2 \<le> n \<Longrightarrow> add_zero_bf_corr_with_repetition ((BellCircuit n n)\<lparr>circuit := qc\<rparr>) 2 True
     = Inr ((BellCircuit n n)\<lparr>circuit := emit qc
              [CX (Qubit ''qubit'' 1) (Qubit ''anc_qb2'' 0),
               CX (Qubit ''qubit'' 1) (Qubit ''anc_qb2'' 1),
               CCX (Qubit ''anc_qb2'' 0) (Qubit ''anc_qb2'' 1) (Qubit ''qubit'' 1)]\<rparr>,
            emit qc
              [CX (Qubit ''qubit'' 1) (Qubit ''anc_qb2'' 0),
               CX (Qubit ''qubit'' 1) (Qubit ''anc_qb2'' 1),
               CCX (Qubit ''anc_qb2'' 0) (Qubit ''anc_qb2'' 1) (Qubit ''qubit'' 1)])"
  by (simp add: add_zero_bf_corr_with_repetition_def Let_def)

lemma simple_correction_valid_upd:
  assumes "\<forall>e \<in> set errors. valid_error n e" and "1 \<le> n"
  shows "\<exists>qc. create_circuit_with_simple_correction ((BellCircuit n n)\<lparr>circuit := qc0\<rparr>) errors False
               = Inr ((BellCircuit n n)\<lparr>circuit := qc\<rparr>)"
proof -
  obtain gs where "concrete_errors ((BellCircuit n n)\<lparr>circuit := 
       emit qc0 [H (Qubit ''qubit'' 0), Barrier]\<rparr>) errors
             = Inr ((BellCircuit n n)\<lparr>circuit := emit (emit qc0 [H (Qubit ''qubit'' 0), Barrier]) gs\<rparr>)"
    using concrete_errors_valid [OF assms(1)] by blast
  with assms(2) show ?thesis
    unfolding create_circuit_with_simple_correction_def
    by (simp add: entangle_and_measure_upd require_ancillas_ok add_x_pf_corr_upd
        add_zero_bf_corr_upd) blast
qed

lemma simple_repetition_valid_upd:
  assumes "\<forall>e \<in> set errors. valid_error n e" and "2 \<le> n"
  shows "\<exists>qc. create_circuit_with_simple_repetition ((BellCircuit n n)\<lparr>circuit := qc0\<rparr>) errors False
               = Inr ((BellCircuit n n)\<lparr>circuit := qc\<rparr>)"
proof -
  obtain gs where "concrete_errors ((BellCircuit n n)\<lparr>circuit := 
       emit qc0 [H (Qubit ''qubit'' 0), Barrier]\<rparr>) errors
             = Inr ((BellCircuit n n)\<lparr>circuit := emit (emit qc0 [H (Qubit ''qubit'' 0), Barrier]) gs\<rparr>)"
    using concrete_errors_valid [OF assms(1)] by blast
  with assms(2) show ?thesis
    unfolding create_circuit_with_simple_repetition_def
    by (simp add: entangle_and_measure_upd require_ancillas_ok add_x_pf_corr_with_repetition_upd
        add_zero_bf_corr_with_repetition_upd) blast
qed

lemma getitem_numeral:
  "k < n \<Longrightarrow> getitem (QuantumRegister n nm) (int k) = Inr (Qubit nm k)"
  using getitem_nat [of k "QuantumRegister n nm"] by simp

lemma prepare_repetition_upd:
  assumes "8 \<le> n"
  shows "\<exists>gs. prepare_repetition ((BellCircuit n n)\<lparr>circuit := qc\<rparr>) q (QuantumRegister n nm)
     = Inr ((BellCircuit n n)\<lparr>circuit := emit qc gs\<rparr>)"
proof -
  have "getitem (QuantumRegister n nm) 2 = Inr (Qubit nm 2)"
       "getitem (QuantumRegister n nm) 5 = Inr (Qubit nm 5)"
    using assms getitem_numeral [of 2 n nm] getitem_numeral [of 5 n nm] by simp_all
  then show ?thesis
    by (simp add: prepare_repetition_def) blast
qed

lemma add_shor_correction_upd:
  assumes "8 \<le> n"
  shows "\<exists>gs. add_shor_correction ((BellCircuit n n)\<lparr>circuit := qc\<rparr>) q (QuantumRegister n nm)
     = Inr ((BellCircuit n n)\<lparr>circuit := emit qc gs\<rparr>)"
proof -
  have "getitem (QuantumRegister n nm) 2 = Inr (Qubit nm 2)"
       "getitem (QuantumRegister n nm) 5 = Inr (Qubit nm 5)"
       "getitem (QuantumRegister n nm) 3 = Inr (Qubit nm 3)"
       "getitem (QuantumRegister n nm) 4 = Inr (Qubit nm 4)"
       "getitem (QuantumRegister n nm) 6 = Inr (Qubit nm 6)"
       "getitem (QuantumRegister n nm) 7 = Inr (Qubit nm 7)"
    using assms getitem_numeral [of 2 n nm] getitem_numeral [of 5 n nm]
      getitem_numeral [of 3 n nm] getitem_numeral [of 4 n nm]
      getitem_numeral [of 6 n nm] getitem_numeral [of 7 n nm] by simp_all
  with assms show ?thesis
    by (simp add: add_shor_correction_def) blast
qed

lemma shor_correction_valid_upd:
  assumes "\<forall>e \<in> set errors. valid_error n e" and "8 \<le> n"
  shows "\<exists>qc. create_circuit_with_shor_correction ((BellCircuit n n)\<lparr>circuit := qc0\<rparr>) errors False
               = Inr ((BellCircuit n n)\<lparr>circuit := qc\<rparr>)"
proof -
  let ?B = "BellCircuit n n"
  let ?q0 = "Qubit ''qubit'' 0" and ?q1 = "Qubit ''qubit'' 1"
  let ?r0 = "QuantumRegister n ''anc_qb1''" and ?r1 = "QuantumRegister n ''anc_qb2''"
  obtain g1 where s1: "prepare_repetition (?B\<lparr>circuit := emit qc0 [H ?q0, Barrier]\<rparr>) ?q0 ?r0
     = Inr (?B\<lparr>circuit := emit (emit qc0 [H ?q0, Barrier]) g1\<rparr>)"
    using prepare_repetition_upd [OF assms(2)] by blast
  obtain g2 where s2: "prepare_repetition (?B\<lparr>circuit := emit (emit qc0 [H ?q0, Barrier]) g1\<rparr>) ?q1 ?r1
     = Inr (?B\<lparr>circuit := emit (emit (emit qc0 [H ?q0, Barrier]) g1) g2\<rparr>)"
    using prepare_repetition_upd [OF assms(2)] by blast
  obtain g3 where s3: "concrete_errors (?B\<lparr>circuit := emit (emit (emit qc0 [H ?q0, Barrier]) g1) g2\<rparr>) errors
     = Inr (?B\<lparr>circuit := emit (emit (emit (emit qc0 [H ?q0, Barrier]) g1) g2) g3\<rparr>)"
    using concrete_errors_valid [OF assms(1)] by blast
  obtain g4 where s4: "add_shor_correction (?B\<lparr>circuit := emit (emit (emit (emit qc0 [H ?q0, Barrier]) g1) g2) g3\<rparr>) ?q0 ?r0
     = Inr (?B\<lparr>circuit := emit (emit (emit (emit (emit qc0 [H ?q0, Barrier]) g1) g2) g3) g4\<rparr>)"
    using add_shor_correction_upd [OF assms(2)] by blast
  obtain g5 where s5: "add_shor_correction (?B\<lparr>circuit := emit (emit (emit (emit (emit qc0 [H ?q0, Barrier]) g1) g2) g3) g4\<rparr>) ?q1 ?r1
     = Inr (?B\<lparr>circuit := emit (emit (emit (emit (emit (emit qc0 [H ?q0, Barrier]) g1) g2) g3) g4) g5\<rparr>)"
    using add_shor_correction_upd [OF assms(2)] by blast
  from assms(2) have n: "0 < n" "8 \<le> n" "\<not> n = 0" by simp_all
  show ?thesis
    unfolding create_circuit_with_shor_correction_def
    using s1 s2 s3 s4 s5 n
    by (simp add: entangle_and_measure_upd require_ancillas_ok del: emit_emit) blast
qed

lemma str_int_0 [simp]: "str_int 0 = ''0''"
  by (simp add: str_int_def str_nat.simps [of 0] digit_char_def)

lemma error_key_0: "error_key 0 e1 0 e2 = ''[(0, '' @ e1 @ ''), (0, '' @ e2 @ '')]''"
  by (simp add: error_key_def)

lemma list_getitem_Cons_1 [simp]: "list_getitem (x # y # xs) 1 = Inr y"
  by (simp add: list_getitem_def)

text \<open>What a run hands to the backend does not depend on the backend.\<close>

lemma run_one_combination_shape:
  "\<exists>m. \<forall>(exec :: 'b executor) b. run_one_combination exec n ct errors b =
      (case m of Inl e \<Rightarrow> Inl e
       | Inr (qc, key) \<Rightarrow> Inr ((fst (exec qc b), key), snd (exec qc b)))"
proof -
  let ?m = "bind (list_getitem errors 0) (\<lambda>e0.
         bind (list_getitem errors 1) (\<lambda>e1.
         bind (if ct = ''simple''
               then bind (create_circuit_with_simple_correction (BellCircuit n n)
                            [((1, 0), snd e0), ((2, 0), snd e1)] False)
                      (\<lambda>qc. Inr (qc, error_key 0 (snd e0) 0 (snd e1)))
               else bind (if ct = ''repetition_simple''
                          then create_circuit_with_simple_repetition (BellCircuit n n) errors False
                          else if ct = ''shor''
                          then create_circuit_with_shor_correction (BellCircuit n n) errors False
                          else create_circuit_with_no_correction (BellCircuit n n) errors False)
                      (\<lambda>qc. Inr (qc, error_key (snd (fst e0)) (snd e0) (snd (fst e1)) (snd e1))))
           (\<lambda>(qc, error). Inr (circuit qc, error))))"
  have "\<forall>(exec :: 'b executor) b. run_one_combination exec n ct errors b =
      (case ?m of Inl e \<Rightarrow> Inl e
       | Inr (qc, key) \<Rightarrow> Inr ((fst (exec qc b), key), snd (exec qc b)))"
    unfolding run_one_combination_def Let_def
    by (auto simp: bind_def split: sum.splits)
  then show ?thesis by blast
qed

lemma run_one_combination_valid:
  assumes "ancillas_suffice ct n" and "0 \<le> i1" "i1 \<le> int n" "0 \<le> i2" "i2 \<le> int n"
  shows "\<exists>r. run_one_combination exec n ct [((1, i1), e1), ((2, i2), e2)] b = Inr r"
proof -
  have v: "\<forall>e \<in> set [((1, i1), e1), ((2, i2), e2)]. valid_error n e"
    and v0: "\<forall>e \<in> set [((1, 0), e1), ((2, 0), e2)]. valid_error n e"
    using assms by (simp_all add: valid_error_def)
  consider (simple) "ct = ''simple''" | (rep) "ct = ''repetition_simple''" | (shor) "ct = ''shor''"
    | (other) "ct \<noteq> ''simple''" "ct \<noteq> ''repetition_simple''" "ct \<noteq> ''shor''" by blast
  then show ?thesis
  proof cases
    case simple
    with assms have "1 \<le> n" by (simp add: ancillas_suffice_def)
    from simple_correction_valid_upd [OF v0 this, of "circuit (BellCircuit n n)"]
    obtain qc where "create_circuit_with_simple_correction (BellCircuit n n)
        [((1, 0), e1), ((2, 0), e2)] False = Inr ((BellCircuit n n)\<lparr>circuit := qc\<rparr>)"
      unfolding self_upd by blast
    with simple show ?thesis
      by (simp add: run_one_combination_def Let_def)
  next
    case rep
    with assms have "2 \<le> n" by (simp add: ancillas_suffice_def)
    from simple_repetition_valid_upd [OF v this, of "circuit (BellCircuit n n)"]
    obtain qc where "create_circuit_with_simple_repetition (BellCircuit n n)
        [((1, i1), e1), ((2, i2), e2)] False = Inr ((BellCircuit n n)\<lparr>circuit := qc\<rparr>)"
      unfolding self_upd by blast
    with rep show ?thesis
      by (simp add: run_one_combination_def Let_def)
  next
    case shor
    with assms have "8 \<le> n" by (simp add: ancillas_suffice_def)
    from shor_correction_valid_upd [OF v this, of "circuit (BellCircuit n n)"]
    obtain qc where "create_circuit_with_shor_correction (BellCircuit n n)
        [((1, i1), e1), ((2, i2), e2)] False = Inr ((BellCircuit n n)\<lparr>circuit := qc\<rparr>)"
      unfolding self_upd by blast
    with shor show ?thesis
      by (simp add: run_one_combination_def Let_def)
  next
    case other
    from no_correction_valid [OF v]
    obtain qc where "create_circuit_with_no_correction (BellCircuit n n)
        [((1, i1), e1), ((2, i2), e2)] False = Inr ((BellCircuit n n)\<lparr>circuit := qc\<rparr>)"
      by blast
    with other show ?thesis
      by (simp add: run_one_combination_def Let_def)
  qed
qed

lemma symbolic_no_correction:
  "\<exists>qc. create_circuit_with_no_correction (BellCircuit n n) [] True = Inr qc"
  by (simp add: create_circuit_with_no_correction_def append_instruction_def
      entangle_and_measure_def add_measurement_def app_def Let_def)

section \<open>Correction types\<close>

text \<open>
  Claim C10. For every correction type other than \<open>'simple'\<close>, \<open>'repetition_simple'\<close>
  and \<open>'shor'\<close>, \<open>run_one_combination\<close> and \<open>get_circuit_to_print\<close> do exactly what
  they do for \<open>'no_correction'\<close>: they build the circuit without correction, and the
  unknown type raises nothing (with error indices from 0 to \<open>n\<close> the run returns, and the
  circuit to print is always returned).
\<close>

theorem unknown_correction_type_is_no_correction:
  assumes "ct \<noteq> ''simple''" and "ct \<noteq> ''repetition_simple''" and "ct \<noteq> ''shor''"
  shows "run_one_combination exec n ct errors b
           = run_one_combination exec n ''no_correction'' errors b
       \<and> run_one_combination exec n ct (e0 # e1 # rest) b
           = bind (create_circuit_with_no_correction (BellCircuit n n) (e0 # e1 # rest) False)
               (\<lambda>qc. Inr ((fst (exec (circuit qc) b),
                            error_key (snd (fst e0)) (snd e0) (snd (fst e1)) (snd e1)),
                           snd (exec (circuit qc) b)))
       \<and> (0 \<le> i1 \<and> i1 \<le> int n \<and> 0 \<le> i2 \<and> i2 \<le> int n \<longrightarrow>
            (\<exists>r. run_one_combination exec n ct [((1, i1), g1), ((2, i2), g2)] b = Inr r))
       \<and> get_circuit_to_print n ct = get_circuit_to_print n ''no_correction''
       \<and> (\<exists>qc. create_circuit_with_no_correction (BellCircuit n n) [] True = Inr qc
                \<and> get_circuit_to_print n ct = Inr (circuit qc))"
proof (intro conjI impI)
  show "run_one_combination exec n ct errors b
           = run_one_combination exec n ''no_correction'' errors b"
    using assms by (simp add: run_one_combination_def)
  show "run_one_combination exec n ct (e0 # e1 # rest) b
           = bind (create_circuit_with_no_correction (BellCircuit n n) (e0 # e1 # rest) False)
               (\<lambda>qc. Inr ((fst (exec (circuit qc) b),
                            error_key (snd (fst e0)) (snd e0) (snd (fst e1)) (snd e1)),
                           snd (exec (circuit qc) b)))"
    using assms by (simp add: run_one_combination_def Let_def bind_def split: sum.splits)
  show "get_circuit_to_print n ct = get_circuit_to_print n ''no_correction''"
    using assms by (simp add: get_circuit_to_print_def)
  show "\<exists>qc. create_circuit_with_no_correction (BellCircuit n n) [] True = Inr qc
                \<and> get_circuit_to_print n ct = Inr (circuit qc)"
    using assms symbolic_no_correction [of n] by (auto simp: get_circuit_to_print_def Let_def)
next
  assume "0 \<le> i1 \<and> i1 \<le> int n \<and> 0 \<le> i2 \<and> i2 \<le> int n"
  moreover have "ancillas_suffice ct n"
    using assms by (simp add: ancillas_suffice_def)
  ultimately show "\<exists>r. run_one_combination exec n ct [((1, i1), g1), ((2, i2), g2)] b = Inr r"
    by (intro run_one_combination_valid) simp_all
qed

theorem unknown_correction_type_is_no_correction_witness:
  "run_one_combination counting_backend 1 ''banana'' [((1, 1), ''x''), ((2, 0), ''z'')] 0
     = run_one_combination counting_backend 1 ''no_correction'' [((1, 1), ''x''), ((2, 0), ''z'')] 0
   \<and> (\<exists>r. run_one_combination counting_backend 1 ''banana'' [((1, 1), ''x''), ((2, 0), ''z'')] 0
            = Inr r)
   \<and> get_circuit_to_print 1 ''banana'' = get_circuit_to_print 1 ''no_correction''
   \<and> (\<exists>qc. get_circuit_to_print 1 ''banana'' = Inr qc)"
proof -
  have h: "''banana'' \<noteq> ''simple''" "''banana'' \<noteq> ''repetition_simple''"
    "''banana'' \<noteq> ''shor''"
    by simp_all
  have i: "(0::int) \<le> 1 \<and> (1::int) \<le> int 1 \<and> (0::int) \<le> 0 \<and> (0::int) \<le> int 1"
    by simp
  from unknown_correction_type_is_no_correction [OF h, of counting_backend 1
      "[((1, 1), ''x''), ((2, 0), ''z'')]" 0 "((1, 1), ''x'')" "((2, 0), ''z'')" "[]"
      1 0 "''x''" "''z''"] i
  show ?thesis by blast
qed

section \<open>The simple scheme\<close>

lemma simple_correction_circuit:
  assumes "1 \<le> n"
  shows "create_circuit_with_simple_correction (BellCircuit n n) [((1, 0), e1), ((2, 0), e2)] False
     = Inr ((BellCircuit n n)\<lparr>circuit := emit (circuit (BellCircuit n n))
         ([H (Qubit ''qubit'' 0), Barrier]
          @ error_ops e1 (Qubit ''qubit'' 0) @ error_ops e2 (Qubit ''qubit'' 1)
          @ [Barrier,
             H (Qubit ''qubit'' 0), CX (Qubit ''qubit'' 0) (Qubit ''anc_qb1'' 0),
             CX (Qubit ''anc_qb1'' 0) (Qubit ''qubit'' 0), H (Qubit ''qubit'' 0), Barrier,
             CX (Qubit ''qubit'' 1) (Qubit ''anc_qb2'' 0),
             CX (Qubit ''anc_qb2'' 0) (Qubit ''qubit'' 1), Barrier,
             CX (Qubit ''qubit'' 0) (Qubit ''qubit'' 1), Barrier,
             CX (Qubit ''qubit'' 0) (Qubit ''qubit'' 1), H (Qubit ''qubit'' 0),
             Measure (Qubit ''qubit'' 0) (Clbit 0), Measure (Qubit ''qubit'' 1) (Clbit 1)])\<rparr>)"
proof -
  have "create_circuit_with_simple_correction ((BellCircuit n n)\<lparr>circuit := qc0\<rparr>)
          [((1, 0), e1), ((2, 0), e2)] False
     = Inr ((BellCircuit n n)\<lparr>circuit := emit qc0
         ([H (Qubit ''qubit'' 0), Barrier]
          @ error_ops e1 (Qubit ''qubit'' 0) @ error_ops e2 (Qubit ''qubit'' 1)
          @ [Barrier,
             H (Qubit ''qubit'' 0), CX (Qubit ''qubit'' 0) (Qubit ''anc_qb1'' 0),
             CX (Qubit ''anc_qb1'' 0) (Qubit ''qubit'' 0), H (Qubit ''qubit'' 0), Barrier,
             CX (Qubit ''qubit'' 1) (Qubit ''anc_qb2'' 0),
             CX (Qubit ''anc_qb2'' 0) (Qubit ''qubit'' 1), Barrier,
             CX (Qubit ''qubit'' 0) (Qubit ''qubit'' 1), Barrier,
             CX (Qubit ''qubit'' 0) (Qubit ''qubit'' 1), H (Qubit ''qubit'' 0),
             Measure (Qubit ''qubit'' 0) (Clbit 0), Measure (Qubit ''qubit'' 1) (Clbit 1)])\<rparr>)" for qc0
    using assms
    unfolding create_circuit_with_simple_correction_def
    by (simp add: entangle_and_measure_upd require_ancillas_ok add_x_pf_corr_upd
        add_zero_bf_corr_upd concrete_errors_def add_error_def out_of_index_def)
  from this [of "circuit (BellCircuit n n)"] show ?thesis
    unfolding self_upd .
qed

text \<open>
  Claim C5. For the \<open>'simple'\<close> scheme \<open>run_one_combination\<close> ignores the groups and
  indices of the caller's two errors: it does what it does for the errors \<open>(1, 0)\<close> and
  \<open>(2, 0)\<close> with the caller's two gates. With at least one ancilla per group the
  circuit it executes is the simple-correction circuit for those two errors, whose only
  \<open>X\<close> and \<open>Z\<close> gates are on the primary qubits, and the key it returns is
  \<open>[(0, gate1), (0, gate2)]\<close>.
\<close>

theorem simple_scheme_coerces_indices:
  "run_one_combination exec n ''simple'' (((g1, i1), e1) # ((g2, i2), e2) # rest) b
     = run_one_combination exec n ''simple'' [((1, 0), e1), ((2, 0), e2)] b
   \<and> (1 \<le> n \<longrightarrow>
        (\<exists>qc. create_circuit_with_simple_correction (BellCircuit n n)
                [((1, 0), e1), ((2, 0), e2)] False = Inr qc
            \<and> (\<forall>q. X q \<in> set (data (circuit qc)) \<or> Z q \<in> set (data (circuit qc))
                  \<longrightarrow> q \<in> {Qubit ''qubit'' 0, Qubit ''qubit'' 1})
            \<and> run_one_combination exec n ''simple'' (((g1, i1), e1) # ((g2, i2), e2) # rest) b
                = Inr ((fst (exec (circuit qc) b), ''[(0, '' @ e1 @ ''), (0, '' @ e2 @ '')]''),
                       snd (exec (circuit qc) b))))"
proof (intro conjI impI)
  show "run_one_combination exec n ''simple'' (((g1, i1), e1) # ((g2, i2), e2) # rest) b
     = run_one_combination exec n ''simple'' [((1, 0), e1), ((2, 0), e2)] b"
    by (simp add: run_one_combination_def)
next
  assume n: "1 \<le> n"
  let ?gs = "[H (Qubit ''qubit'' 0), Barrier]
          @ error_ops e1 (Qubit ''qubit'' 0) @ error_ops e2 (Qubit ''qubit'' 1)
          @ [Barrier,
             H (Qubit ''qubit'' 0), CX (Qubit ''qubit'' 0) (Qubit ''anc_qb1'' 0),
             CX (Qubit ''anc_qb1'' 0) (Qubit ''qubit'' 0), H (Qubit ''qubit'' 0), Barrier,
             CX (Qubit ''qubit'' 1) (Qubit ''anc_qb2'' 0),
             CX (Qubit ''anc_qb2'' 0) (Qubit ''qubit'' 1), Barrier,
             CX (Qubit ''qubit'' 0) (Qubit ''qubit'' 1), Barrier,
             CX (Qubit ''qubit'' 0) (Qubit ''qubit'' 1), H (Qubit ''qubit'' 0),
             Measure (Qubit ''qubit'' 0) (Clbit 0), Measure (Qubit ''qubit'' 1) (Clbit 1)]"
  let ?qc = "(BellCircuit n n)\<lparr>circuit := emit (circuit (BellCircuit n n)) ?gs\<rparr>"
  have built: "create_circuit_with_simple_correction (BellCircuit n n)
                [((1, 0), e1), ((2, 0), e2)] False = Inr ?qc"
    by (rule simple_correction_circuit [OF n])
  have "data (circuit ?qc) = ?gs"
    by (simp add: emit_def)
  then have only_primary: "\<forall>q. X q \<in> set (data (circuit ?qc)) \<or> Z q \<in> set (data (circuit ?qc))
                  \<longrightarrow> q \<in> {Qubit ''qubit'' 0, Qubit ''qubit'' 1}"
    by (auto simp: error_ops_def split: if_splits)
  have "run_one_combination exec n ''simple'' (((g1, i1), e1) # ((g2, i2), e2) # rest) b
                = Inr ((fst (exec (circuit ?qc) b), ''[(0, '' @ e1 @ ''), (0, '' @ e2 @ '')]''),
                       snd (exec (circuit ?qc) b))"
    unfolding run_one_combination_def Let_def
    by (simp add: built error_key_0 del: BellCircuit_sel(4))
  with built only_primary
  show "\<exists>qc. create_circuit_with_simple_correction (BellCircuit n n)
                [((1, 0), e1), ((2, 0), e2)] False = Inr qc
            \<and> (\<forall>q. X q \<in> set (data (circuit qc)) \<or> Z q \<in> set (data (circuit qc))
                  \<longrightarrow> q \<in> {Qubit ''qubit'' 0, Qubit ''qubit'' 1})
            \<and> run_one_combination exec n ''simple'' (((g1, i1), e1) # ((g2, i2), e2) # rest) b
                = Inr ((fst (exec (circuit qc) b), ''[(0, '' @ e1 @ ''), (0, '' @ e2 @ '')]''),
                       snd (exec (circuit qc) b))"
    by blast
qed

theorem simple_scheme_coerces_indices_witness:
  "\<exists>qc. create_circuit_with_simple_correction (BellCircuit 1 1)
           [((1, 0), ''x''), ((2, 0), ''z'')] False = Inr qc
     \<and> run_one_combination counting_backend 1 ''simple'' [((1, 1), ''x''), ((2, 1), ''z'')] 0
         = Inr ((fst (counting_backend (circuit qc) 0), ''[(0, x), (0, z)]''),
                snd (counting_backend (circuit qc) 0))"
  using simple_scheme_coerces_indices [of counting_backend 1 1 1 "''x''" 2 1 "''z''" "[]" 0]
  by auto

section \<open>All combinations\<close>

lemma first_runs_keys: "fst ` set (first_runs seen runs) = fst ` set runs - seen"
  by (induction seen runs rule: first_runs.induct) auto

lemma first_runs_distinct: "distinct (map fst (first_runs seen runs))"
  by (induction seen runs rule: first_runs.induct) (auto simp: first_runs_keys)

lemma first_runs_map_of:
  "map_of (first_runs seen runs) k = (if k \<in> seen then None else map_of runs k)"
  by (induction seen runs arbitrary: k rule: first_runs.induct) auto

lemma all_loop_run_each:
  "all_loop exec n ct cfgs (ac, etc) b =
     bind (run_each exec n ct cfgs b) (\<lambda>(runs, b').
       Inr ((foldl add_counts ac (map snd (first_runs (dom etc) runs)), map_of runs ++ etc), b'))"
proof (induction cfgs arbitrary: ac etc b)
  case Nil
  show ?case by simp
next
  case (Cons cfg cfgs)
  show ?case
  proof (cases "run_one_combination exec n ct (errors_of cfg) b")
    case (Inl e)
    then show ?thesis by simp
  next
    case (Inr r)
    obtain cs key b' where r: "r = ((cs, key), b')" by (metis surj_pair)
    show ?thesis
    proof (cases "run_each exec n ct cfgs b'")
      case (Inl e)
      with Inr r Cons.IH show ?thesis by simp
    next
      case run: (Inr rr)
      obtain runs b'' where rr: "rr = (runs, b'')" by (metis surj_pair)
      show ?thesis
      proof (cases "key \<in> dom etc")
        case True
        have upd: "(map_of runs)(key \<mapsto> cs) ++ etc = map_of runs ++ etc"
          using True by (auto simp: map_add_def fun_eq_iff split: option.splits)
        have "all_loop exec n ct (cfg # cfgs) (ac, etc) b = all_loop exec n ct cfgs (ac, etc) b'"
          using True Inr r by (auto simp: domIff)
        also have "\<dots> = Inr ((foldl add_counts ac (map snd (first_runs (dom etc) runs)),
                              map_of runs ++ etc), b'')"
          using Cons.IH [of ac etc b'] run rr by simp
        finally show ?thesis
          using True Inr r run rr upd by simp
      next
        case False
        have upd: "(map_of runs)(key \<mapsto> cs) ++ etc = map_of runs ++ etc(key \<mapsto> cs)"
          using False by (auto simp: map_add_def fun_eq_iff split: option.splits)
        have "all_loop exec n ct (cfg # cfgs) (ac, etc) b
            = all_loop exec n ct cfgs (add_counts ac cs, etc(key \<mapsto> cs)) b'"
          using False Inr r by (auto simp: domIff)
        also have "\<dots> = Inr ((foldl add_counts (add_counts ac cs)
                                (map snd (first_runs (dom (etc(key \<mapsto> cs))) runs)),
                              map_of runs ++ etc(key \<mapsto> cs)), b'')"
          using Cons.IH [of "add_counts ac cs" "etc(key \<mapsto> cs)" b'] run rr
          by (simp del: dom_fun_upd fun_upd_apply)
        finally show ?thesis
          using False Inr r run rr upd by simp
      qed
    qed
  qed
qed

lemma run_each_succeeds:
  assumes "\<And>cfg b. cfg \<in> set cfgs \<Longrightarrow> \<exists>r. run_one_combination exec n ct (errors_of cfg) b = Inr r"
  shows "\<exists>runs b'. run_each exec n ct cfgs b = Inr (runs, b') \<and> length runs = length cfgs"
  using assms
proof (induction cfgs arbitrary: b)
  case Nil
  show ?case by simp
next
  case (Cons cfg cfgs)
  from Cons.prems [of cfg b] obtain cs key b' where
    r: "run_one_combination exec n ct (errors_of cfg) b = Inr ((cs, key), b')"
    by auto
  from Cons.IH [of b'] Cons.prems obtain runs b'' where
    "run_each exec n ct cfgs b' = Inr (runs, b'')" "length runs = length cfgs"
    by auto
  with r show ?case by simp
qed

lemma all_configs_valid:
  assumes "cfg \<in> set (all_configs n)"
  shows "\<exists>i1 i2 e1 e2. cfg = (i1, i2, e1, e2) \<and> 0 \<le> i1 \<and> i1 \<le> int n \<and> 0 \<le> i2 \<and> i2 \<le> int n"
  using assms by (auto simp: all_configs_def)

lemma length_all_configs: "length (all_configs n) = 9 * (n + 1)\<^sup>2"
  by (simp add: all_configs_def error_gates_def length_concat comp_def sum_list_triv power2_eq_square)

lemma distinct_concat_map:
  assumes "distinct xs"
    and "\<And>x. x \<in> set xs \<Longrightarrow> distinct (f x)"
    and "\<And>x y. x \<in> set xs \<Longrightarrow> y \<in> set xs \<Longrightarrow> x \<noteq> y \<Longrightarrow> set (f x) \<inter> set (f y) = {}"
  shows "distinct (concat (map f xs))"
  using assms
proof (induction xs)
  case Nil
  show ?case by simp
next
  case (Cons x xs)
  have "set (f x) \<inter> set (f y) = {}" if "y \<in> set xs" for y
    using Cons.prems(1) Cons.prems(3) [of x y] that by auto
  then have "set (f x) \<inter> \<Union> (set ` f ` set xs) = {}"
    by blast
  moreover have "distinct (concat (map f xs))"
    using Cons by simp
  ultimately show ?case
    using Cons.prems(2) [of x] by simp
qed

lemma distinct_error_gates: "distinct error_gates"
  by (simp add: error_gates_def)

lemma distinct_all_configs: "distinct (all_configs n)"
  unfolding all_configs_def
proof (intro distinct_concat_map)
  show "distinct [0..<n + 1]" by simp
next
  fix a b :: nat
  assume "a \<noteq> b"
  then show "set (concat (map (\<lambda>q2. concat (map (\<lambda>e1. map (\<lambda>e2. (int a, int q2, e1, e2)) error_gates) error_gates)) [0..<n + 1]))
      \<inter> set (concat (map (\<lambda>q2. concat (map (\<lambda>e1. map (\<lambda>e2. (int b, int q2, e1, e2)) error_gates) error_gates)) [0..<n + 1])) = {}"
    by (auto simp del: upt_Suc)
next
  fix a :: nat
  show "distinct [0..<n + 1]" by simp
next
  fix a b c :: nat
  assume "b \<noteq> c"
  then show "set (concat (map (\<lambda>e1. map (\<lambda>e2. (int a, int b, e1, e2)) error_gates) error_gates))
      \<inter> set (concat (map (\<lambda>e1. map (\<lambda>e2. (int a, int c, e1, e2)) error_gates) error_gates)) = {}"
    by auto
next
  show "distinct error_gates" by (rule distinct_error_gates)
next
  fix a b :: nat and x y :: string
  assume "x \<noteq> y"
  then show "set (map (\<lambda>e2. (int a, int b, x, e2)) error_gates)
      \<inter> set (map (\<lambda>e2. (int a, int b, y, e2)) error_gates) = {}"
    by auto
next
  fix a b :: nat and x :: string
  show "distinct (map (\<lambda>e2. (int a, int b, x, e2)) error_gates)"
    by (simp add: distinct_map distinct_error_gates inj_on_def)
qed

lemma set_all_configs_bex:
  "(i1, i2, e1, e2) \<in> set (all_configs n) \<longleftrightarrow>
     (\<exists>a \<in> {0..<n + 1}. \<exists>b \<in> {0..<n + 1}. \<exists>x \<in> set error_gates. \<exists>y \<in> set error_gates.
        (i1, i2, e1, e2) = (int a, int b, x, y))"
  unfolding all_configs_def
  by (simp del: upt_Suc add: image_iff)

lemma int_range: "(\<exists>a \<in> {0..<n + 1}. i = int a) \<longleftrightarrow> 0 \<le> i \<and> i \<le> int n"
proof
  assume "\<exists>a \<in> {0..<n + 1}. i = int a"
  then show "0 \<le> i \<and> i \<le> int n" by auto
next
  assume a: "0 \<le> i \<and> i \<le> int n"
  then have "nat i \<in> {0..<n + 1}" by (simp add: nat_less_iff)
  moreover from a have "i = int (nat i)" by simp
  ultimately show "\<exists>a \<in> {0..<n + 1}. i = int a" by blast
qed

lemma set_all_configs_mem:
  "(i1, i2, e1, e2) \<in> set (all_configs n) \<longleftrightarrow>
     0 \<le> i1 \<and> i1 \<le> int n \<and> 0 \<le> i2 \<and> i2 \<le> int n
     \<and> e1 \<in> {''i'', ''x'', ''z''} \<and> e2 \<in> {''i'', ''x'', ''z''}"
proof -
  have "(i1, i2, e1, e2) \<in> set (all_configs n) \<longleftrightarrow>
     (\<exists>a \<in> {0..<n + 1}. i1 = int a) \<and> (\<exists>b \<in> {0..<n + 1}. i2 = int b)
      \<and> e1 \<in> set error_gates \<and> e2 \<in> set error_gates"
    unfolding set_all_configs_bex by (simp only: prod.inject) blast
  then show ?thesis
    unfolding int_range by (simp add: error_gates_def)
qed

lemma set_all_configs:
  "set (all_configs n) =
     {(i1, i2, e1, e2). 0 \<le> i1 \<and> i1 \<le> int n \<and> 0 \<le> i2 \<and> i2 \<le> int n
        \<and> e1 \<in> {''i'', ''x'', ''z''} \<and> e2 \<in> {''i'', ''x'', ''z''}}"
  using set_all_configs_mem by auto

lemma run_one_combination_key:
  assumes "run_one_combination exec n ct (errors_of (q1, q2, e1, e2)) b = Inr ((cs, key), b')"
  shows "key = canonical_key ct (q1, q2, e1, e2)"
proof (cases "ct = ''simple''")
  case True
  with assms show ?thesis
    unfolding run_one_combination_def errors_of_def canonical_key_def Let_def
    by (simp add: bind_eq_Inr) blast
next
  case False
  with assms show ?thesis
    unfolding run_one_combination_def errors_of_def canonical_key_def Let_def
    by (simp add: bind_eq_Inr) blast
qed

lemma run_each_keys:
  "run_each exec n ct cfgs b = Inr (runs, b') \<Longrightarrow> map fst runs = map (canonical_key ct) cfgs"
proof (induction cfgs arbitrary: b runs)
  case Nil
  then show ?case by simp
next
  case (Cons cfg cfgs)
  obtain q1 q2 e1 e2 where cfg: "cfg = (q1, q2, e1, e2)"
    by (metis surj_pair)
  from Cons.prems obtain cs key b1 runs1 where
    one: "run_one_combination exec n ct (errors_of (q1, q2, e1, e2)) b = Inr ((cs, key), b1)"
    and rest: "run_each exec n ct cfgs b1 = Inr (runs1, b')"
    and runs: "runs = (key, cs) # runs1"
    unfolding cfg by (auto simp: bind_eq_Inr)
  from run_one_combination_key [OF one] Cons.IH [OF rest] runs cfg show ?case
    by simp
qed

lemma all_configs_order:
  "all_configs n =
     [(int a, int b, e1, e2).
        a \<leftarrow> [0..<n + 1], b \<leftarrow> [0..<n + 1],
        e1 \<leftarrow> [''i'', ''x'', ''z''], e2 \<leftarrow> [''i'', ''x'', ''z'']]"
  by (simp add: all_configs_def error_gates_def del: upt_Suc)

lemma counting_backend_one_call:
  assumes "run_one_combination counting_backend n ct errs k = Inr (r, k')"
  shows "k' = Suc k"
proof -
  obtain m where m: "\<And>b. run_one_combination counting_backend n ct errs b =
      (case m of Inl e \<Rightarrow> Inl e
       | Inr (qc, key) \<Rightarrow> Inr ((fst (counting_backend qc b), key), snd (counting_backend qc b)))"
    using run_one_combination_shape [where ?'b = nat, of n ct errs] by blast
  from assms show ?thesis
    unfolding m by (cases m) (auto simp: counting_backend_def)
qed

lemma run_each_counting:
  "run_each counting_backend n ct cfgs k = Inr (runs, k') \<Longrightarrow> k' = k + length cfgs"
proof (induction cfgs arbitrary: k runs)
  case Nil
  then show ?case by simp
next
  case (Cons cfg cfgs)
  from Cons.prems obtain cs key k1 runs1 where
    one: "run_one_combination counting_backend n ct (errors_of cfg) k = Inr ((cs, key), k1)"
    and rest: "run_each counting_backend n ct cfgs k1 = Inr (runs1, k')"
    by (auto simp: bind_eq_Inr)
  from counting_backend_one_call [OF one] Cons.IH [OF rest] show ?case
    by simp
qed

lemma simple_run_counting:
  "run_one_combination counting_backend (Suc 0) ''simple'' (errors_of (i1, i2, e1, e2)) b
     = Inr (([''00'' \<mapsto> 1000], ''[(0, '' @ e1 @ ''), (0, '' @ e2 @ '')]''), Suc b)"
  unfolding run_one_combination_def Let_def errors_of_def
  using simple_correction_circuit [of "Suc 0" e1 e2]
  by (simp add: error_key_0 counting_backend_def del: BellCircuit_sel(4))

lemma all_configs_1:
  "all_configs 1 = concat (map (\<lambda>(a, b). 
      [(a, b, ''i'', ''i''), (a, b, ''i'', ''x''), (a, b, ''i'', ''z''),
       (a, b, ''x'', ''i''), (a, b, ''x'', ''x''), (a, b, ''x'', ''z''),
       (a, b, ''z'', ''i''), (a, b, ''z'', ''x''), (a, b, ''z'', ''z'')]) [(0, 0), (0, 1), (1, 0), (1, 1)])"
  by (simp add: all_configs_def error_gates_def upt_rec)

lemma run_each_simple_1:
  "\<exists>runs. run_each counting_backend 1 ''simple'' (all_configs 1) 0 = Inr (runs, 36)
     \<and> dom (map_of runs)
         = {''[(0, i), (0, i)]'', ''[(0, i), (0, x)]'', ''[(0, i), (0, z)]'',
            ''[(0, x), (0, i)]'', ''[(0, x), (0, x)]'', ''[(0, x), (0, z)]'',
            ''[(0, z), (0, i)]'', ''[(0, z), (0, x)]'', ''[(0, z), (0, z)]''}"
  unfolding all_configs_1
  by (simp add: simple_run_counting)

text \<open>
  Claim C1, as stated, fails twice. A configuration whose key was already seen is run
  again before its key is looked up: with one ancilla and the \<open>'simple'\<close> scheme the
  backend is called 36 times for 9 keys. And not every ancilla count and correction type
  runs at all: with one ancilla \<open>'repetition_simple'\<close> raises at the first combination.
\<close>

theorem duplicate_keys_are_run_again:
  "calls_made (run_all_combinations counting_backend 1 ''simple'' 0) = Inr 36
   \<and> keys_recorded (run_all_combinations counting_backend 1 ''simple'' 0) = Inr 9
   \<and> run_all_combinations counting_backend 1 ''repetition_simple'' 0
       = Inl (Exception (''This method requires two ancillas per each qubit. ''
               @ ''Currently qubit1 has 1 ancillas and qubit2 has 1 ancillas.''))"
proof -
  obtain runs where runs: "run_each counting_backend 1 ''simple'' (all_configs 1) 0 = Inr (runs, 36)"
     "dom (map_of runs)
         = {''[(0, i), (0, i)]'', ''[(0, i), (0, x)]'', ''[(0, i), (0, z)]'',
            ''[(0, x), (0, i)]'', ''[(0, x), (0, x)]'', ''[(0, x), (0, z)]'',
            ''[(0, z), (0, i)]'', ''[(0, z), (0, x)]'', ''[(0, z), (0, z)]''}"
    using run_each_simple_1 by blast
  have "card (dom (map_of runs)) = 9"
    unfolding runs(2) by simp
  then have a: "calls_made (run_all_combinations counting_backend 1 ''simple'' 0) = Inr 36"
    "keys_recorded (run_all_combinations counting_backend 1 ''simple'' 0) = Inr 9"
    unfolding run_all_combinations_def all_loop_run_each
    by (simp_all add: runs(1) calls_made_def keys_recorded_def del: One_nat_def)
  have "str_nat (Suc 0) = ''1''"
    by (simp add: str_nat.simps [of "Suc 0"] digit_char_def)
  then have "run_one_combination counting_backend 1 ''repetition_simple'' (errors_of (0, 0, ''i'', ''i'')) 0
     = Inl (Exception (''This method requires two ancillas per each qubit. ''
               @ ''Currently qubit1 has 1 ancillas and qubit2 has 1 ancillas.''))"
    by (simp add: run_one_combination_def errors_of_def create_circuit_with_simple_repetition_def 
      require_ancillas_def msg_both_def)
  then have "run_all_combinations counting_backend 1 ''repetition_simple'' 0
       = Inl (Exception (''This method requires two ancillas per each qubit. ''
               @ ''Currently qubit1 has 1 ancillas and qubit2 has 1 ancillas.''))"
    unfolding run_all_combinations_def all_configs_1
    by simp
  with a show ?thesis by blast
qed

text \<open>
  Claim C1, amended. The enumeration holds every configuration of index 1 in \<open>[0, n]\<close>,
  index 2 in \<open>[0, n]\<close>, gate 1 in \<open>{i, x, z}\<close> and gate 2 in \<open>{i, x, z}\<close>, each once, index
  1 ascending first, then index 2, then gate 1 and gate 2 in the order i, x, z. When
  the ancilla count meets what the correction type asks for, \<open>run_all_combinations\<close>
  returns, and it has built and executed every one of these \<open>9 (n + 1)\<^sup>2\<close>
  configurations exactly once, in the order of the enumeration, also those whose key was
  already seen; the key of each run is the canonical key of its configuration. Of these
  runs only the first of each key is kept: the per-key dictionary maps each key to the
  counts of its first run, and the totals are the sum of the counts of those first runs,
  each key once. A backend that counts its calls has been called \<open>9 (n + 1)\<^sup>2\<close>
  times.
\<close>

theorem all_combinations_run_then_dedup:
  assumes "ancillas_suffice ct n"
  shows "all_configs n =
           [(int a, int b, e1, e2).
              a \<leftarrow> [0..<n + 1], b \<leftarrow> [0..<n + 1],
              e1 \<leftarrow> [''i'', ''x'', ''z''], e2 \<leftarrow> [''i'', ''x'', ''z'']]
       \<and> distinct (all_configs n)
       \<and> set (all_configs n) =
           {(i1, i2, e1, e2). 0 \<le> i1 \<and> i1 \<le> int n \<and> 0 \<le> i2 \<and> i2 \<le> int n
              \<and> e1 \<in> {''i'', ''x'', ''z''} \<and> e2 \<in> {''i'', ''x'', ''z''}}
       \<and> (\<exists>runs b'. run_each exec n ct (all_configs n) b = Inr (runs, b')
             \<and> map fst runs = map (canonical_key ct) (all_configs n)
             \<and> length runs = 9 * (n + 1)\<^sup>2
             \<and> run_all_combinations exec n ct b
                 = Inr ((foldl add_counts Map.empty (map snd (first_runs {} runs)),
                         map_of runs), b')
             \<and> distinct (map fst (first_runs {} runs))
             \<and> map_of (first_runs {} runs) = map_of runs)
       \<and> calls_made (run_all_combinations counting_backend n ct k) = Inr (k + 9 * (n + 1)\<^sup>2)"
proof -
  have ok: "\<exists>r. run_one_combination ex n ct (errors_of cfg) b0 = Inr r"
    if "cfg \<in> set (all_configs n)" for cfg b0 and ex :: "'c executor"
  proof -
    from all_configs_valid [OF that] obtain i1 i2 e1 e2 where
      "cfg = (i1, i2, e1, e2)" "0 \<le> i1" "i1 \<le> int n" "0 \<le> i2" "i2 \<le> int n" by blast
    with run_one_combination_valid [OF assms, of i1 i2 ex e1 e2 b0] show ?thesis
      by (simp add: errors_of_def)
  qed
  from run_each_succeeds [of "all_configs n" exec n ct b, OF ok] obtain runs b' where
    runs: "run_each exec n ct (all_configs n) b = Inr (runs, b')"
      "length runs = length (all_configs n)" by blast
  have all: "run_all_combinations exec n ct b
      = Inr ((foldl add_counts Map.empty (map snd (first_runs {} runs)), map_of runs), b')"
    unfolding run_all_combinations_def all_loop_run_each
    by (simp add: runs)
  have first: "map_of (first_runs {} runs) = map_of runs"
    by (rule ext) (simp add: first_runs_map_of)
  have keys: "map fst runs = map (canonical_key ct) (all_configs n)"
    by (rule run_each_keys [OF runs(1)])
  have calls: "calls_made (run_all_combinations counting_backend n ct k) = Inr (k + 9 * (n + 1)\<^sup>2)"
  proof -
    from run_each_succeeds [of "all_configs n" counting_backend n ct k, OF ok] obtain rs k' where
      rs: "run_each counting_backend n ct (all_configs n) k = Inr (rs, k')" by blast
    from run_each_counting [OF rs] have "k' = k + 9 * (n + 1)\<^sup>2"
      by (simp add: length_all_configs)
    then show ?thesis
      unfolding run_all_combinations_def all_loop_run_each
      by (simp add: rs calls_made_def)
  qed
  have "\<exists>runs b'. run_each exec n ct (all_configs n) b = Inr (runs, b')
             \<and> map fst runs = map (canonical_key ct) (all_configs n)
             \<and> length runs = 9 * (n + 1)\<^sup>2
             \<and> run_all_combinations exec n ct b
                 = Inr ((foldl add_counts Map.empty (map snd (first_runs {} runs)),
                         map_of runs), b')
             \<and> distinct (map fst (first_runs {} runs))
             \<and> map_of (first_runs {} runs) = map_of runs"
    using runs all first keys first_runs_distinct [of "{}" runs]
    by (intro exI [of _ runs] exI [of _ b']) (simp add: length_all_configs)
  with all_configs_order [of n] distinct_all_configs [of n] set_all_configs [of n] calls
  show ?thesis
    by blast
qed

theorem all_combinations_run_then_dedup_witness:
  "ancillas_suffice ''simple'' 1
   \<and> distinct (all_configs 1)
   \<and> (\<exists>runs b'. run_each counting_backend 1 ''simple'' (all_configs 1) 0 = Inr (runs, b')
           \<and> map fst runs = map (canonical_key ''simple'') (all_configs 1)
           \<and> length runs = 36
           \<and> run_all_combinations counting_backend 1 ''simple'' 0
               = Inr ((foldl add_counts Map.empty (map snd (first_runs {} runs)), map_of runs), b')
           \<and> distinct (map fst (first_runs {} runs))
           \<and> map_of (first_runs {} runs) = map_of runs)
   \<and> calls_made (run_all_combinations counting_backend 1 ''simple'' 0) = Inr 36"
proof -
  have s: "ancillas_suffice ''simple'' 1"
    by (simp add: ancillas_suffice_def)
  from all_combinations_run_then_dedup [OF s, of counting_backend 0 0] s
  show ?thesis by (auto simp: power2_eq_square)
qed

section \<open>Random errors\<close>

lemma without_backend_simps [simp]:
  "without_backend (Inl e) = Inl e"
  "without_backend (Inr (r, g, b)) = Inr (r, g)"
  by (simp_all add: without_backend_def)

lemma without_backend_bind:
  assumes "\<And>a. without_backend (f a) = without_backend (f' a)"
  shows "without_backend (bind m f) = without_backend (bind m f')"
  using assms by (cases m) simp_all

lemma random_loop_pure:
  assumes pure: "\<forall>qc b1 b2. fst (exec qc b1) = fst (exec qc b2)"
  shows "without_backend (random_loop R exec n ct probabilities k acc g b1)
       = without_backend (random_loop R exec n ct probabilities k acc g b2)"
proof (induction k arbitrary: acc g b1 b2)
  case 0
  show ?case by simp
next
  case (Suc k)
  have step: "without_backend
          (bind (run_one_combination exec n ct errs b1) (\<lambda>p.
             random_loop R exec n ct probabilities k (F (fst p)) g' (snd p)))
      = without_backend
          (bind (run_one_combination exec n ct errs b2) (\<lambda>p.
             random_loop R exec n ct probabilities k (F (fst p)) g' (snd p)))" for errs F g'
  proof -
    obtain m where m: "\<And>b. run_one_combination exec n ct errs b =
      (case m of Inl e \<Rightarrow> Inl e
       | Inr (qc, key) \<Rightarrow> Inr ((fst (exec qc b), key), snd (exec qc b)))"
      using run_one_combination_shape [where ?'b = 'a, of n ct errs] by blast
    show ?thesis
    proof (cases m)
      case (Inl e)
      then show ?thesis by (simp add: m)
    next
      case (Inr p)
      obtain qc key where "p = (qc, key)" by (metis surj_pair)
      with Inr pure [rule_format, of qc b1 b2]
        Suc.IH [of "F (fst (exec qc b2), key)" g' "snd (exec qc b1)" "snd (exec qc b2)"]
      show ?thesis by (simp add: m)
    qed
  qed
  show ?case
    unfolding random_loop.simps Let_def split_def
    by (intro without_backend_bind step)
qed

text \<open>
  Claim C6. Two calls of \<open>run_random_errors\<close> with the same seed, iteration count and
  weights (and the same ancilla count and correction type) give the same result, whatever
  state the global generator was in before each call and whatever the operating system
  would have seeded it with: with the same backend state everything agrees, the state the
  backend is left in included (so a backend that records its calls has recorded the same
  sequence of circuits); and when the counts the backend reports depend on the circuit
  only, the totals, the per-key counts and the generator's final state agree from any two
  backend states.
\<close>

theorem seeded_runs_agree:
  "run_random_errors R exec n ct iterations probabilities (Some seed) os1 g1 b
     = run_random_errors R exec n ct iterations probabilities (Some seed) os2 g2 b
   \<and> ((\<forall>qc b1 b2. fst (exec qc b1) = fst (exec qc b2)) \<longrightarrow>
        without_backend (run_random_errors R exec n ct iterations probabilities (Some seed) os1 g1 b1)
        = without_backend (run_random_errors R exec n ct iterations probabilities (Some seed) os2 g2 b2))"
  by (simp add: run_random_errors_def random_seed_def random_loop_pure)

theorem seeded_runs_agree_witness:
  "(\<forall>qc b1 b2. fst (counting_backend qc b1) = fst (counting_backend qc b2))
   \<and> without_backend (run_random_errors toy_random counting_backend 2 ''repetition_simple'' 3 () (Some 7) 0 0 0)
     = without_backend (run_random_errors toy_random counting_backend 2 ''repetition_simple'' 3 () (Some 7) 5 9 4)
   \<and> (\<exists>r. run_random_errors toy_random counting_backend 0 ''no_correction'' 1 () (Some 7) 0 0 0 = Inr r)"
proof -
  have p: "\<forall>qc b1 b2. fst (counting_backend qc b1) = fst (counting_backend qc b2)"
    by (simp add: counting_backend_def)
  have "\<exists>r. run_random_errors toy_random counting_backend 0 ''no_correction'' 1 () (Some 7) 0 0 0 = Inr r"
    by (simp add: run_random_errors_def random_seed_def toy_random_def error_gates_def
        run_one_combination_def create_circuit_with_no_correction_def concrete_errors_def
        add_error_def out_of_index_def entangle_and_measure_def add_measurement_def Let_def
        app_def add_error_gate_def)
  with p seeded_runs_agree [of toy_random counting_backend 2 "''repetition_simple''" 3 "()" 7 0 0 0 5 9 0 4]
  show ?thesis by blast
qed

text \<open>
  The claim is about runs that are given a seed. With \<open>None\<close> for the seed the generator
  starts from what the operating system provides, and two runs need not agree.
\<close>

lemma unseeded_runs_may_differ:
  "run_random_errors toy_random counting_backend 0 ''no_correction'' 1 () None 0 0 0
     \<noteq> run_random_errors toy_random counting_backend 0 ''no_correction'' 1 () None 1 0 0"
  by (simp add: run_random_errors_def random_seed_def toy_random_def error_gates_def
        run_one_combination_def create_circuit_with_no_correction_def concrete_errors_def
        add_error_def out_of_index_def entangle_and_measure_def add_measurement_def Let_def
        app_def add_error_gate_def)

end
